theory Spec2Isabelle
  imports Complex_Main "HOL-Library.Sublist"
begin

section \<open>Strings of the runtime\<close>

text \<open>
  The route handler works on JavaScript strings. A string is modelled as a list of code
  units, restricted to the code units below 256 (Latin-1), which covers every literal of
  the source (the \<open>u-umlaut\<close> of the Stussy brand name is code unit 0xFC). On that range
  \<open>toLowerCase\<close>, \<open>trim\<close> and the regular expression classes are given exactly.
\<close>

definition isWhiteSpace :: "char \<Rightarrow> bool" where
  "isWhiteSpace c = ((of_char c :: nat) \<in> {9, 10, 11, 12, 13, 32, 160})"

definition trim :: "string \<Rightarrow> string" where
  "trim s = rev (dropWhile isWhiteSpace (rev (dropWhile isWhiteSpace s)))"

definition toLowerChar :: "char \<Rightarrow> char" where
  "toLowerChar c =
     (let n = (of_char c :: nat)
      in if (65 \<le> n \<and> n \<le> 90) \<or> (192 \<le> n \<and> n \<le> 222 \<and> n \<noteq> 215)
         then char_of (n + 32) else c)"

definition toLowerCase :: "string \<Rightarrow> string" where
  "toLowerCase s = map toLowerChar s"

text \<open>\<open>Array.prototype.join\<close> on an array of strings.\<close>

fun join :: "string \<Rightarrow> string list \<Rightarrow> string" where
  "join sep [] = []"
| "join sep [x] = x"
| "join sep (x # y # ys) = x @ sep @ join sep (y # ys)"

text \<open>\<open>String.prototype.includes\<close>: the key occurs somewhere in the string.\<close>

fun includes_str :: "string \<Rightarrow> string \<Rightarrow> bool" where
  "includes_str [] k = (k = [])"
| "includes_str (c # cs) k = (prefix k (c # cs) \<or> includes_str cs k)"

subsection \<open>The regular expression of the query builder\<close>

text \<open>
  \<^verbatim>\<open>/\b(t-?shirt|tee|shirt)\b/.test(txt)\<close>: some position of \<open>txt\<close> starts one of the
  four words the group can match, with a word boundary on both sides. The words start
  and end with word characters, so the boundary before holds when the previous code unit
  is not a word character (or there is none), the boundary after when the next one is
  not (or there is none).
\<close>

definition isWordChar :: "char \<Rightarrow> bool" where
  "isWordChar c =
     (let n = (of_char c :: nat)
      in (48 \<le> n \<and> n \<le> 57) \<or> (65 \<le> n \<and> n \<le> 90) \<or> n = 95 \<or> (97 \<le> n \<and> n \<le> 122))"

definition teeWords :: "string list" where
  "teeWords = [''t-shirt'', ''tshirt'', ''tee'', ''shirt'']"

definition boundaryAhead :: "string \<Rightarrow> bool" where
  "boundaryAhead rest = (case rest of [] \<Rightarrow> True | c # _ \<Rightarrow> \<not> isWordChar c)"

definition matchHere :: "string \<Rightarrow> string \<Rightarrow> bool" where
  "matchHere w s = (prefix w s \<and> boundaryAhead (drop (length w) s))"

fun teeScan :: "bool \<Rightarrow> string \<Rightarrow> bool" where
  "teeScan prevWord [] = False"
| "teeScan prevWord (c # cs) =
     ((\<not> prevWord \<and> list_ex (\<lambda>w. matchHere w (c # cs)) teeWords) \<or> teeScan (isWordChar c) cs)"

definition teeRegexTest :: "string \<Rightarrow> bool" where
  "teeRegexTest txt = teeScan False txt"

section \<open>The attribute record and the query builder\<close>

record Attributes =
  brand :: "string option"
  category :: "string option"
  colors :: "string list option"
  patterns :: "string list option"
  texts :: "string list option"

text \<open>JavaScript truthiness of an optional string: defined and not empty.\<close>

definition truthy :: "string option \<Rightarrow> bool" where
  "truthy x = (case x of None \<Rightarrow> False | Some s \<Rightarrow> s \<noteq> [])"

text \<open>\<open>xs ?? []\<close>\<close>

definition orEmpty :: "'a list option \<Rightarrow> 'a list" where
  "orEmpty xs = (case xs of None \<Rightarrow> [] | Some ys \<Rightarrow> ys)"

text \<open>\<open>if (x) parts.push(x)\<close> and \<open>if (xs?.length) parts.push(xs[0])\<close>.\<close>

definition pushIf :: "string list \<Rightarrow> string option \<Rightarrow> string list" where
  "pushIf parts x = (case x of None \<Rightarrow> parts | Some s \<Rightarrow> if s \<noteq> [] then parts @ [s] else parts)"

definition pushFirst :: "string list \<Rightarrow> string list option \<Rightarrow> string list" where
  "pushFirst parts xs =
     (case xs of None \<Rightarrow> parts | Some [] \<Rightarrow> parts | Some (x # _) \<Rightarrow> parts @ [x])"

text \<open>
  \<open>buildQuery\<close> assigns to \<open>a.category\<close>, so the model returns the query together with the
  record as it is after the call: \<open>a0\<close> is the record passed in, \<open>a\<close> the record after the
  assignment.
\<close>

definition buildQuery :: "Attributes \<Rightarrow> string \<times> Attributes" where
  "buildQuery a0 =
     (let txt = toLowerCase (join '' '' (orEmpty (texts a0)));
          a = (if \<not> truthy (category a0) \<and> teeRegexTest txt
               then a0\<lparr>category := Some ''t-shirt''\<rparr> else a0);
          parts = [];
          parts = pushIf parts (brand a);
          parts = pushIf parts (category a);
          parts = pushFirst parts (colors a);
          parts = pushFirst parts (patterns a)
      in if \<not> truthy (brand a) \<and> \<not> truthy (category a) then ([], a)
         else (trim (join '' '' (parts @ [''buy''])), a))"

section \<open>The attribute extractor\<close>

subsection \<open>Brand, category, colour and pattern tables\<close>

text \<open>
  \<open>brandMap\<close> is an object literal whose keys are all non-numeric strings, so
  \<open>for (const key in brandMap)\<close> visits them in the order they are written: an
  association list in that order.
\<close>

definition brandMap :: "(string \<times> string) list" where
  "brandMap =
    [(''nike'', ''Nike''), (''swoosh'', ''Nike''), (''just do it'', ''Nike''),
     (''adidas'', ''Adidas''), (''three stripes'', ''Adidas''), (''puma'', ''Puma''),
     (''the north face'', ''The North Face''), (''north face'', ''The North Face''),
     (''patagonia'', ''Patagonia''), (''levi's'', ''Levi's''), (''levis'', ''Levi's''),
     (''uniqlo'', ''UNIQLO''), (''zara'', ''Zara''), (''h&m'', ''H&M''), (''hm'', ''H&M''),
     (''under armour'', ''Under Armour''), (''new balance'', ''New Balance''),
     (''asics'', ''ASICS''), (''vans'', ''Vans''), (''converse'', ''Converse''),
     (''reebok'', ''Reebok''), (''supreme'', ''Supreme''),
     (''stussy'', ''St'' @ [CHR 0xFC] @ ''ssy''),
     (''lululemon'', ''Lululemon''), (''lulu'', ''Lululemon'')]"

text \<open>The inner loop of \<open>pickBrandFromPools\<close>: the keys of the map against one string.\<close>

fun firstKeyIn :: "(string \<times> string) list \<Rightarrow> string \<Rightarrow> string option" where
  "firstKeyIn [] s = None"
| "firstKeyIn ((key, canonical) # m) s =
     (if includes_str s key then Some canonical else firstKeyIn m s)"

text \<open>The outer loop, over the pool strings, with the map as a parameter.\<close>

fun pickBrandIn :: "(string \<times> string) list \<Rightarrow> string list \<Rightarrow> string option" where
  "pickBrandIn m [] = None"
| "pickBrandIn m (s # pools) =
     (case firstKeyIn m s of Some canonical \<Rightarrow> Some canonical | None \<Rightarrow> pickBrandIn m pools)"

definition pickBrandFromPools :: "string list \<Rightarrow> string option" where
  "pickBrandFromPools pools = pickBrandIn brandMap pools"

definition normalizeBrand :: "string option \<Rightarrow> string option" where
  "normalizeBrand b = (if \<not> truthy b then None else b)"

definition cats :: "string list list" where
  "cats =
    [[''t-shirt'', ''tee'', ''shirt'', ''jersey'', ''top''],
     [''hoodie'', ''sweatshirt''],
     [''jacket'', ''coat'', ''parka''],
     [''sweater'', ''knit'', ''cardigan''],
     [''dress''],
     [''skirt''],
     [''jeans'', ''denim''],
     [''pants'', ''trousers'', ''slacks'', ''chinos'', ''cargo''],
     [''shorts''],
     [''shoes'', ''sneakers'', ''trainers'', ''boots''],
     [''bag'', ''handbag'', ''backpack'', ''tote''],
     [''hat'', ''cap'', ''beanie'']]"

fun pickCategoryIn :: "string list list \<Rightarrow> string list \<Rightarrow> string option" where
  "pickCategoryIn [] pools = None"
| "pickCategoryIn (grp # groups) pools =
     (if list_ex (\<lambda>s. list_ex (\<lambda>g. includes_str s g) grp) pools
      then (case grp of [] \<Rightarrow> None | canonical # _ \<Rightarrow> Some canonical)
      else pickCategoryIn groups pools)"

definition pickCategoryFromPools :: "string list \<Rightarrow> string option" where
  "pickCategoryFromPools pools = pickCategoryIn cats pools"

text \<open>
  A JavaScript \<open>Set\<close> of strings keeps its members in insertion order:
  a list without repetition, \<open>add\<close> appending a string that is not there yet.
\<close>

definition setAdd :: "string list \<Rightarrow> string \<Rightarrow> string list" where
  "setAdd found c = (if c \<in> set found then found else found @ [c])"

definition newSet :: "string list \<Rightarrow> string list" where
  "newSet xs = foldl setAdd [] xs"

text \<open>
  \<open>for (const l of labelsLower) for (const c of words) if (l.includes(c)) found.add(c)\<close>,
  the loop shared by \<open>pickColors\<close> and \<open>pickPatterns\<close>.
\<close>

definition scanWords :: "string list \<Rightarrow> string list \<Rightarrow> string list" where
  "scanWords ws labelsLower =
     foldl (\<lambda>found l. foldl (\<lambda>found c. if includes_str l c then setAdd found c else found) found ws)
       [] labelsLower"

definition palette :: "string list" where
  "palette = [''black'', ''white'', ''gray'', ''grey'', ''red'', ''blue'', ''green'', ''yellow'',
              ''pink'', ''purple'', ''brown'', ''beige'', ''tan'', ''orange'']"

definition pickColors :: "string list \<Rightarrow> string list" where
  "pickColors labelsLower = scanWords palette labelsLower"

definition pats :: "string list" where
  "pats = [''striped'', ''plaid'', ''checkered'', ''floral'', ''polka dot'', ''graphic'',
           ''logo'', ''solid'']"

definition pickPatterns :: "string list \<Rightarrow> string list" where
  "pickPatterns labelsLower = scanWords pats labelsLower"

text \<open>
  \<open>approxColorName\<close>: the palette entry nearest in squared distance; \<open>bestDist\<close> starts
  at \<open>Infinity\<close>, here \<open>None\<close>. The channel values are taken as integers, on which
  the arithmetic of doubles is exact as long as the squares stay below \<open>2^53\<close>; fractional
  channels, and channels so large that the distance overflows (for which the source
  returns no name), are outside the model. Nothing proved below depends on which name
  is returned.
\<close>

definition namedColors :: "(string \<times> int \<times> int \<times> int) list" where
  "namedColors =
    [(''black'', 0, 0, 0), (''white'', 255, 255, 255), (''gray'', 128, 128, 128),
     (''red'', 220, 20, 60), (''blue'', 65, 105, 225), (''green'', 34, 139, 34),
     (''yellow'', 255, 215, 0), (''pink'', 255, 105, 180), (''purple'', 138, 43, 226),
     (''brown'', 139, 69, 19), (''beige'', 245, 245, 220), (''orange'', 255, 140, 0)]"

definition nearer :: "int \<Rightarrow> int \<Rightarrow> int \<Rightarrow> string option \<times> int option \<Rightarrow> string \<times> int \<times> int \<times> int
    \<Rightarrow> string option \<times> int option" where
  "nearer r g b acc entry =
     (case entry of (name, pr, pg, pb) \<Rightarrow>
        let d = (r - pr)\<^sup>2 + (g - pg)\<^sup>2 + (b - pb)\<^sup>2
        in if (case snd acc of None \<Rightarrow> True | Some bestDist \<Rightarrow> d < bestDist)
           then (Some name, Some d) else acc)"

definition approxColorName :: "int \<Rightarrow> int \<Rightarrow> int \<Rightarrow> string option" where
  "approxColorName r g b = fst (foldl (nearer r g b) (None, None) namedColors)"

subsection \<open>Reducing the annotations\<close>

text \<open>
  What the six annotation calls return, as far as the extractor reads it: for each
  annotation its \<open>description\<close> (or \<open>name\<close>), \<open>None\<close> when the field is missing; for each
  dominant colour its \<open>color\<close> with the three channels. A list that the response does
  not carry is \<open>None\<close> and is read as the empty list.
\<close>

record rgb =
  red :: "int option"
  green :: "int option"
  blue :: "int option"

record annotations =
  logoAnnotations :: "string option list option"
  labelAnnotations :: "string option list option"
  textAnnotations :: "string option list option"
  webEntities :: "string option list option"
  localizedObjectAnnotations :: "string option list option"
  dominantColors :: "rgb option list option"

definition orBlank :: "string option \<Rightarrow> string" where
  "orBlank x = (case x of None \<Rightarrow> [] | Some s \<Rightarrow> s)"

text \<open>\<open>.map((t) => t.description?.trim()).filter(Boolean)\<close>\<close>

definition trimmedNonEmpty :: "string option list \<Rightarrow> string list" where
  "trimmedNonEmpty ds = filter (\<lambda>s. s \<noteq> []) (map trim (List.map_filter (\<lambda>d. d) ds))"

definition channel :: "rgb option \<Rightarrow> (rgb \<Rightarrow> int option) \<Rightarrow> int" where
  "channel c sel = (case c of None \<Rightarrow> 0 | Some v \<Rightarrow> (case sel v of None \<Rightarrow> 0 | Some n \<Rightarrow> n))"

definition colorNamesOf :: "rgb option list \<Rightarrow> string list" where
  "colorNamesOf domColors =
     filter (\<lambda>s. s \<noteq> [])
       (List.map_filter (\<lambda>c. approxColorName (channel c red) (channel c green) (channel c blue))
          (take 5 domColors))"

definition extractFrom :: "annotations \<Rightarrow> Attributes" where
  "extractFrom r =
     (let logos = orEmpty (logoAnnotations r);
          labels = orEmpty (labelAnnotations r);
          texts = trimmedNonEmpty (orEmpty (textAnnotations r));
          webEntities = trimmedNonEmpty (orEmpty (webEntities r));
          objects = filter (\<lambda>s. s \<noteq> [])
                      (map (\<lambda>s. toLowerCase (trim s))
                         (List.map_filter (\<lambda>d. d) (orEmpty (localizedObjectAnnotations r))));
          colorNames = colorNamesOf (orEmpty (dominantColors r));
          logoWords = map orBlank logos;
          labelWords = map orBlank labels;
          pools = map toLowerCase (logoWords @ labelWords @ texts @ webEntities @ objects);
          brand = normalizeBrand (pickBrandFromPools pools);
          category = pickCategoryFromPools pools;
          patterns = pickPatterns (map toLowerCase (labelWords @ webEntities));
          colors = take 3 (newSet (pickColors pools @ colorNames))
      in \<lparr>brand = brand, category = category, colors = Some colors,
          patterns = Some patterns, texts = Some texts\<rparr>)"

subsection \<open>Calling the annotation service\<close>

text \<open>
  A thrown value is modelled by its \<open>message\<close>, \<open>None\<close> when it has none. A call that
  may throw or reject returns \<open>Inl\<close> of the thrown value.
\<close>

datatype exn = Exn (message: "string option")

type_synonym buffer = "char list"

text \<open>
  The annotation client. \<open>webDetection\<close>, \<open>objectLocalization\<close> and \<open>imageProperties\<close>
  exist on some versions of the SDK only: \<open>None\<close> is a client without the method.
\<close>

record visionClient =
  logoDetection :: "buffer \<Rightarrow> exn + string option list option"
  labelDetection :: "buffer \<Rightarrow> exn + string option list option"
  textDetection :: "buffer \<Rightarrow> exn + string option list option"
  webDetection :: "(buffer \<Rightarrow> exn + string option list option) option"
  objectLocalization :: "(buffer \<Rightarrow> exn + string option list option) option"
  imageProperties :: "(buffer \<Rightarrow> exn + rgb option list option) option"
  getProjectId :: "exn + string"

definition guarded :: "(buffer \<Rightarrow> exn + 'a list option) option \<Rightarrow> buffer \<Rightarrow> exn + 'a list option" where
  "guarded method imageBuffer = (case method of None \<Rightarrow> Inr None | Some call \<Rightarrow> call imageBuffer)"

text \<open>
  \<open>Promise.all\<close> over the six calls: one rejection rejects the whole. When several
  calls reject, \<open>Promise.all\<close> rejects with the one that rejects first in time; the model
  reports the first in the order of the array. Nothing proved below reads the message
  of the rejection.
\<close>

definition extractAttributes :: "visionClient \<Rightarrow> buffer \<Rightarrow> exn + Attributes" where
  "extractAttributes client imageBuffer =
     (case logoDetection client imageBuffer of Inl e \<Rightarrow> Inl e | Inr logoRes \<Rightarrow>
      case labelDetection client imageBuffer of Inl e \<Rightarrow> Inl e | Inr labelRes \<Rightarrow>
      case textDetection client imageBuffer of Inl e \<Rightarrow> Inl e | Inr textRes \<Rightarrow>
      case guarded (webDetection client) imageBuffer of Inl e \<Rightarrow> Inl e | Inr webRes \<Rightarrow>
      case guarded (objectLocalization client) imageBuffer of Inl e \<Rightarrow> Inl e | Inr objRes \<Rightarrow>
      case guarded (imageProperties client) imageBuffer of Inl e \<Rightarrow> Inl e | Inr propsRes \<Rightarrow>
        Inr (extractFrom \<lparr>logoAnnotations = logoRes, labelAnnotations = labelRes,
               textAnnotations = textRes, webEntities = webRes,
               localizedObjectAnnotations = objRes, dominantColors = propsRes\<rparr>))"

section \<open>The shopping search adapter\<close>

text \<open>
  The values \<open>res.json()\<close> yields. A number is the exact value of the double it was
  parsed to, a rational, or \<open>Infinity\<close> or \<open>-Infinity\<close> when the literal is beyond the
  range of doubles (as \<open>1e999\<close> is).
\<close>

datatype json = JNull | JBool bool | JNum rat | JInfinity | JNegInfinity | JStr string
  | JArr "json list" | JObj "(string \<times> json) list"

text \<open>\<open>typeof x === "number"\<close>\<close>

definition isNumber :: "json option \<Rightarrow> bool" where
  "isNumber x = (case x of Some (JNum _) \<Rightarrow> True | Some JInfinity \<Rightarrow> True
                 | Some JNegInfinity \<Rightarrow> True | _ \<Rightarrow> False)"

text \<open>
  One entry of \<open>shopping_results\<close>, a JSON object: the properties the adapter reads,
  \<open>None\<close> for a property the object does not have (\<open>undefined\<close>).
\<close>

record shoppingResult =
  product_id :: "json option"
  position :: "json option"
  it_title :: "json option"
  it_price :: "json option"
  extracted_price :: "json option"
  source :: "json option"
  domain :: "json option"
  link :: "json option"
  thumbnail :: "json option"

record MatchItem =
  id_field :: "json option"
  title :: "json option"
  price :: "json option"
  store :: "json option"
  url :: "json option"
  image_field :: "json option"
  match :: "json option"

text \<open>\<open>x ?? y\<close>: \<open>y\<close> when \<open>x\<close> is \<open>undefined\<close> or \<open>null\<close>.\<close>

definition nullish :: "json option \<Rightarrow> bool" where
  "nullish x = (x = None \<or> x = Some JNull)"

definition coalesce :: "json option \<Rightarrow> json option \<Rightarrow> json option" where
  "coalesce x y = (if nullish x then y else x)"

subsection \<open>Number formatting\<close>

definition isDigit :: "char \<Rightarrow> bool" where
  "isDigit c = (c \<in> set ''0123456789'')"

definition digitChar :: "nat \<Rightarrow> char" where
  "digitChar d = ''0123456789'' ! d"

fun digits :: "nat \<Rightarrow> string" where
  "digits n = (if n < 10 then [digitChar n] else digits (n div 10) @ [digitChar (n mod 10)])"

declare digits.simps [simp del]

text \<open>
  \<open>Number.prototype.toFixed(2)\<close> on a finite number \<open>x\<close>: the sign, then the integer \<open>n\<close>
  nearest to \<open>100 * |x|\<close> (the larger one on a tie) written in decimal, padded with
  zeros to three digits, with a point before the last two. From \<open>10^21\<close> on the runtime
  prints the number with \<open>Number::toString\<close> instead, which is a parameter here. On a
  number that is not finite \<open>toFixed\<close> returns \<open>Infinity\<close> or \<open>-Infinity\<close>.
\<close>

definition toFixed2 :: "(rat \<Rightarrow> string) \<Rightarrow> rat \<Rightarrow> string" where
  "toFixed2 numberToString x0 =
     (let s = (if x0 < 0 then ''-'' else []);
          x = \<bar>x0\<bar>
      in if x \<ge> 10 ^ 21 then s @ numberToString x
         else let n = nat \<lfloor>x * 100 + 1 / 2\<rfloor>;
                  m = digits n;
                  m = replicate (3 - length m) (CHR ''0'') @ m;
                  k = length m
              in s @ take (k - 2) m @ ''.'' @ drop (k - 2) m)"

subsection \<open>Mapping the results\<close>

definition toMatchItem :: "(rat \<Rightarrow> string) \<Rightarrow> nat \<Rightarrow> shoppingResult \<Rightarrow> MatchItem" where
  "toMatchItem numberToString i it =
     \<lparr>id_field = coalesce (coalesce (product_id it) (position it)) (Some (JNum (of_nat i))),
      title = it_title it,
      price = coalesce (it_price it)
                (case extracted_price it of
                   Some (JNum x) \<Rightarrow> Some (JStr (''$'' @ toFixed2 numberToString x))
                 | Some JInfinity \<Rightarrow> Some (JStr (''$'' @ ''Infinity''))
                 | Some JNegInfinity \<Rightarrow> Some (JStr (''$'' @ ''-Infinity''))
                 | _ \<Rightarrow> None),
      store = coalesce (source it) (domain it),
      url = link it,
      image_field = thumbnail it,
      match = None\<rparr>"

text \<open>\<open>items.slice(0, 12).map((it, i) => ...)\<close>\<close>

definition mapResults :: "(rat \<Rightarrow> string) \<Rightarrow> shoppingResult list \<Rightarrow> MatchItem list" where
  "mapResults numberToString items =
     map (\<lambda>(i, it). toMatchItem numberToString i it) (enumerate 0 (take 12 items))"

text \<open>
  The answer of \<open>fetch\<close>: the HTTP status and the parsed body (\<open>res.json()\<close> may reject),
  of which the adapter reads \<open>shopping_results\<close>.
\<close>

record fetchResponse =
  res_status :: nat
  res_json :: "exn + shoppingResult list option"

text \<open>
  What the adapter needs from outside: the key from the process environment, \<open>fetch\<close>
  as a function of the two request parameters that vary (\<open>q\<close> and \<open>api_key\<close>), and the
  runtime's \<open>Number::toString\<close>.
\<close>

record searchEnv =
  SERPAPI_KEY :: "string option"
  fetch :: "string \<Rightarrow> string \<Rightarrow> exn + fetchResponse"
  numberToString :: "rat \<Rightarrow> string"

text \<open>
  \<open>searchShopping\<close> returns its result together with the queries it sent to the search
  service (none or one).
\<close>

definition searchShopping :: "searchEnv \<Rightarrow> string \<Rightarrow> (exn + MatchItem list) \<times> string list" where
  "searchShopping env q =
     (case SERPAPI_KEY env of
        None \<Rightarrow> (Inl (Exn (Some ''Missing SERPAPI_KEY'')), [])
      | Some apiKey \<Rightarrow>
          if apiKey = [] then (Inl (Exn (Some ''Missing SERPAPI_KEY'')), [])
          else (case fetch env q apiKey of
                  Inl e \<Rightarrow> (Inl e, [q])
                | Inr res \<Rightarrow>
                    if \<not> (200 \<le> res_status res \<and> res_status res \<le> 299)
                    then (Inl (Exn (Some (''SerpAPI failed: '' @ digits (res_status res)))), [q])
                    else (case res_json res of
                            Inl e \<Rightarrow> (Inl e, [q])
                          | Inr results \<Rightarrow>
                              (Inr (mapResults (numberToString env) (orEmpty results)), [q]))))"

section \<open>The request orchestrator\<close>

definition USE_SERPAPI :: bool where
  "USE_SERPAPI = False"

text \<open>
  A form field is a string or a file (with its bytes). The request carries the value
  \<open>searchParams.get("debug")\<close> returns and the parsed form; \<open>req.formData()\<close> may reject.
\<close>

datatype formValue = FString string | FFile buffer

record formData =
  file_field :: "formValue option"
  tiktokUrl :: "formValue option"

record request =
  debugParam :: "string option"
  form :: "exn + formData"

record debugInfo =
  projectId :: "string option"
  query :: string
  attributes :: Attributes
  count :: nat
  dry :: "bool option"

record response =
  status :: nat
  matches :: "MatchItem list option"
  note_field :: "string option"
  error :: "string option"
  debug :: "debugInfo option"

definition truthyValue :: "formValue option \<Rightarrow> bool" where
  "truthyValue v = (case v of None \<Rightarrow> False | Some (FString s) \<Rightarrow> s \<noteq> [] | Some (FFile _) \<Rightarrow> True)"

text \<open>\<open>(file as File).arrayBuffer()\<close>: a type error when the field holds a string.\<close>

definition arrayBuffer :: "formValue option \<Rightarrow> exn + buffer" where
  "arrayBuffer v =
     (case v of Some (FFile bytes) \<Rightarrow> Inr bytes
      | _ \<Rightarrow> Inl (Exn (Some ''file.arrayBuffer is not a function'')))"

text \<open>The \<open>catch\<close> branch.\<close>

definition failed :: "exn \<Rightarrow> response" where
  "failed err =
     \<lparr>status = 500, matches = None, note_field = None,
      error = Some (case message err of None \<Rightarrow> ''Processing failed'' | Some m \<Rightarrow> m),
      debug = None\<rparr>"

definition debugPayload :: "bool \<Rightarrow> debugInfo \<Rightarrow> debugInfo option" where
  "debugPayload dbg info = (if dbg then Some info else None)"

text \<open>
  \<open>POST\<close>, with the toggle as a parameter: the response, and the queries sent to the
  search service while handling the request. Console output is left out.
\<close>

definition POST_with :: "bool \<Rightarrow> visionClient \<Rightarrow> searchEnv \<Rightarrow> request \<Rightarrow> response \<times> string list" where
  "POST_with useSerpapi client env req =
     (let dbg = (debugParam req = Some ''1'')
      in case form req of
           Inl e \<Rightarrow> (failed e, [])
         | Inr fd \<Rightarrow>
             if \<not> truthyValue (file_field fd) \<and> \<not> truthyValue (tiktokUrl fd)
             then (\<lparr>status = 400, matches = None, note_field = None,
                     error = Some ''Provide a file or a TikTok URL'', debug = None\<rparr>, [])
             else if \<not> truthyValue (file_field fd) \<and> truthyValue (tiktokUrl fd)
             then (\<lparr>status = 200, matches = Some [],
                     note_field = Some ''Upload a screenshot of the outfit moment for best results.'',
                     error = None, debug = None\<rparr>, [])
             else (case arrayBuffer (file_field fd) of
                     Inl e \<Rightarrow> (failed e, [])
                   | Inr buf \<Rightarrow>
                      (case extractAttributes client buf of
                         Inl e \<Rightarrow> (failed e, [])
                       | Inr extracted \<Rightarrow>
                          (case buildQuery extracted of (q, attrs) \<Rightarrow>
                             let pid = (case getProjectId client of Inl _ \<Rightarrow> None | Inr p \<Rightarrow> Some p)
                             in if q = []
                                then (\<lparr>status = 200, matches = Some [], note_field = None, error = None,
                                        debug = debugPayload dbg
                                          \<lparr>projectId = pid, query = q, attributes = attrs,
                                           count = 0, dry = None\<rparr>\<rparr>, [])
                                else if \<not> useSerpapi
                                then (\<lparr>status = 200, matches = Some [], note_field = None, error = None,
                                        debug = debugPayload dbg
                                          \<lparr>projectId = pid, query = q, attributes = attrs,
                                           count = 0, dry = Some True\<rparr>\<rparr>, [])
                                else (case searchShopping env q of
                                        (Inl e, sent) \<Rightarrow> (failed e, sent)
                                      | (Inr found, sent) \<Rightarrow>
                                         (\<lparr>status = 200, matches = Some found, note_field = None,
                                            error = None,
                                            debug = debugPayload dbg
                                              \<lparr>projectId = pid, query = q, attributes = attrs,
                                               count = length found, dry = None\<rparr>\<rparr>, sent))))))"

definition POST :: "visionClient \<Rightarrow> searchEnv \<Rightarrow> request \<Rightarrow> response \<times> string list" where
  "POST client env req = POST_with USE_SERPAPI client env req"

section \<open>The specification's wording, for comparison\<close>

text \<open>
  The words of the query of a record, as the specification lists them: brand, category,
  first colour, first pattern and the trailing intent token, in this order; a component
  that is missing contributes nothing.
\<close>

definition present :: "string option \<Rightarrow> string list" where
  "present x = (case x of None \<Rightarrow> [] | Some s \<Rightarrow> if s = [] then [] else [s])"

definition firstOf :: "string list option \<Rightarrow> string list" where
  "firstOf xs = (case xs of None \<Rightarrow> [] | Some [] \<Rightarrow> [] | Some (x # _) \<Rightarrow> [x])"

definition spec_queryWords :: "Attributes \<Rightarrow> string list" where
  "spec_queryWords a =
     present (brand a) @ present (category a) @ firstOf (colors a) @ firstOf (patterns a) @ [''buy'']"

text \<open>The record as the first statement of \<open>buildQuery\<close> leaves it.\<close>

definition inferCategory :: "Attributes \<Rightarrow> Attributes" where
  "inferCategory a =
     (if \<not> truthy (category a) \<and> teeRegexTest (toLowerCase (join '' '' (orEmpty (texts a))))
      then a\<lparr>category := Some ''t-shirt''\<rparr> else a)"

text \<open>The number that a string of decimal digits denotes.\<close>

definition digitValue :: "char \<Rightarrow> nat" where
  "digitValue c = of_char c - 48"

definition decimalValue :: "string \<Rightarrow> nat" where
  "decimalValue s = foldl (\<lambda>n c. 10 * n + digitValue c) 0 s"

text \<open>
  Brand resolution as the specification words it: the first keyword, in map order, that
  occurs anywhere in the pool gives the canonical name.
\<close>

definition spec_brandByMapOrder :: "(string \<times> string) list \<Rightarrow> string list \<Rightarrow> string option" where
  "spec_brandByMapOrder m pools =
     map_option snd (find (\<lambda>(key, canonical). list_ex (\<lambda>s. includes_str s key) pools) m)"

section \<open>Sample inputs\<close>

text \<open>
  An annotation client that answers every image the same way, on an SDK without
  \<open>webDetection\<close>.
\<close>

definition sampleClient :: visionClient where
  "sampleClient =
     \<lparr>logoDetection = (\<lambda>_. Inr (Some [Some ''Nike''])),
      labelDetection =
        (\<lambda>_. Inr (Some [Some ''Black and white striped T-shirt'', None, Some ''Red sleeve''])),
      textDetection = (\<lambda>_. Inr (Some [Some '' JUST DO IT '', Some ''blue'', Some ''black''])),
      webDetection = None,
      objectLocalization = Some (\<lambda>_. Inr (Some [Some ''Top''])),
      imageProperties =
        Some (\<lambda>_. Inr (Some [Some \<lparr>red = Some 250, green = Some 250, blue = None\<rparr>, None])),
      getProjectId = Inr ''outfit-scanner''\<rparr>"

text \<open>A search service that answers every query with the same fourteen results.\<close>

definition pricedItem :: shoppingResult where
  "pricedItem =
     \<lparr>product_id = Some (JStr ''p-881''), position = Some (JNum 1),
      it_title = Some (JStr ''Nike Sportswear Tee''), it_price = Some (JStr ''$19.99''),
      extracted_price = Some (JNum (1999 / 100)), source = Some (JStr ''Nike''),
      domain = None, link = Some (JStr ''https://shop.example/p/881''),
      thumbnail = None\<rparr>"

definition unpricedItem :: shoppingResult where
  "unpricedItem =
     \<lparr>product_id = Some JNull, position = None,
      it_title = Some (JStr ''Plain tee''), it_price = Some JNull,
      extracted_price = Some (JNum (25 / 2)), source = None,
      domain = Some (JStr ''tees.example''), link = None, thumbnail = None\<rparr>"

definition sampleItems :: "shoppingResult list" where
  "sampleItems =
     [pricedItem, unpricedItem, unpricedItem, unpricedItem\<lparr>extracted_price := Some (JStr ''12.5'')\<rparr>,
      unpricedItem\<lparr>extracted_price := Some JInfinity\<rparr>,
      unpricedItem\<lparr>extracted_price := Some (JNum (-1999 / 1000))\<rparr>]
     @ replicate 8 pricedItem"

definition sampleEnv :: searchEnv where
  "sampleEnv =
     \<lparr>SERPAPI_KEY = Some ''key'',
      fetch = (\<lambda>q apiKey. Inr \<lparr>res_status = 200, res_json = Inr (Some sampleItems)\<rparr>),
      numberToString = (\<lambda>x. ''1e+21'')\<rparr>"

section \<open>Strings: joining and trimming\<close>

lemma join_snoc: "join sep (xs @ [y]) = (if xs = [] then y else join sep xs @ sep @ y)"
  by (induction sep xs rule: join.induct) auto

lemma all_dropWhile: "(\<forall>x \<in> set (dropWhile P s). P x) \<longleftrightarrow> (\<forall>x \<in> set s. P x)"
  by (induction s) auto

lemma trim_eq_Nil: "trim s = [] \<longleftrightarrow> (\<forall>c \<in> set s. isWhiteSpace c)"
  by (simp add: trim_def all_dropWhile)

lemma dropWhile_hd_id: "s \<noteq> [] \<Longrightarrow> \<not> P (hd s) \<Longrightarrow> dropWhile P s = s"
  by (cases s) auto

lemma trim_id:
  assumes "s \<noteq> []" and "\<not> isWhiteSpace (hd s)" and "\<not> isWhiteSpace (last s)"
  shows "trim s = s"
proof -
  have front: "dropWhile isWhiteSpace s = s"
    using assms(1,2) by (rule dropWhile_hd_id)
  have "rev s \<noteq> []" and "\<not> isWhiteSpace (hd (rev s))"
    using assms(1,3) by (simp_all add: hd_rev)
  then have "dropWhile isWhiteSpace (rev s) = rev s"
    by (rule dropWhile_hd_id)
  with front show ?thesis
    by (simp add: trim_def)
qed

lemma not_ws_y: "\<not> isWhiteSpace (CHR ''y'')"
  by (simp add: isWhiteSpace_def)

lemma join_buy_last: "last (join '' '' (ps @ [''buy''])) = CHR ''y''"
  by (simp add: join_snoc)

lemma join_buy_nonempty: "join '' '' (ps @ [''buy'']) \<noteq> []"
  by (simp add: join_snoc)

lemma trim_buy_nonempty: "trim (join '' '' (ps @ [''buy''])) \<noteq> []"
proof -
  have "CHR ''y'' \<in> set (join '' '' (ps @ [''buy'']))"
    by (simp add: join_snoc)
  then show ?thesis
    using not_ws_y by (auto simp: trim_eq_Nil)
qed

section \<open>The query builder\<close>

lemma inferCategory_frame:
  "brand (inferCategory a) = brand a" "colors (inferCategory a) = colors a"
  "patterns (inferCategory a) = patterns a" "texts (inferCategory a) = texts a"
  by (simp_all add: inferCategory_def Let_def)

lemma inferCategory_category:
  "category (inferCategory a) =
     (if \<not> truthy (category a) \<and> teeRegexTest (toLowerCase (join '' '' (orEmpty (texts a))))
      then Some ''t-shirt'' else category a)"
  by (simp add: inferCategory_def Let_def)

lemma buildQuery_inferred:
  "buildQuery a0 =
     (let a = inferCategory a0;
          parts = pushFirst (pushFirst (pushIf (pushIf [] (brand a)) (category a)) (colors a)) (patterns a)
      in if \<not> truthy (brand a) \<and> \<not> truthy (category a) then ([], a)
         else (trim (join '' '' (parts @ [''buy''])), a))"
  by (simp add: buildQuery_def inferCategory_def Let_def)

lemma snd_buildQuery: "snd (buildQuery a) = inferCategory a"
  by (simp add: buildQuery_inferred Let_def)

lemma fst_buildQuery_empty:
  "fst (buildQuery a) = [] \<longleftrightarrow> \<not> truthy (brand a) \<and> \<not> truthy (category (inferCategory a))"
  by (simp add: buildQuery_inferred Let_def trim_buy_nonempty inferCategory_frame)

lemma pushes_queryWords:
  "pushFirst (pushFirst (pushIf (pushIf [] (brand a)) (category a)) (colors a)) (patterns a) @ [''buy'']
   = spec_queryWords a"
  by (simp add: pushIf_def pushFirst_def spec_queryWords_def present_def firstOf_def
      split: option.splits list.splits)

lemma fst_buildQuery_nonempty:
  assumes "fst (buildQuery a) \<noteq> []"
  shows "fst (buildQuery a) = trim (join '' '' (spec_queryWords (snd (buildQuery a))))"
proof -
  have "truthy (brand a) \<or> truthy (category (inferCategory a))"
    using assms by (simp add: fst_buildQuery_empty)
  then have "fst (buildQuery a) =
      trim (join '' '' (pushFirst (pushFirst (pushIf (pushIf [] (brand (inferCategory a)))
        (category (inferCategory a))) (colors (inferCategory a))) (patterns (inferCategory a))
        @ [''buy'']))"
    by (auto simp: buildQuery_inferred Let_def inferCategory_frame)
  then show ?thesis
    by (simp only: pushes_queryWords snd_buildQuery)
qed

lemma spec_queryWords_snoc: "\<exists>ws. spec_queryWords a = ws @ [''buy'']"
  by (simp add: spec_queryWords_def flip: append_assoc)

lemma trim_joined_words:
  assumes "\<not> isWhiteSpace (hd (join '' '' (spec_queryWords a)))"
  shows "trim (join '' '' (spec_queryWords a)) = join '' '' (spec_queryWords a)"
proof -
  obtain ws where ws: "spec_queryWords a = ws @ [''buy'']"
    using spec_queryWords_snoc by blast
  show ?thesis
    unfolding ws
    using assms not_ws_y
    by (intro trim_id) (simp_all add: ws join_buy_nonempty join_buy_last)
qed

section \<open>Brand resolution\<close>

lemma includes_str_iff_sublist: "includes_str s k \<longleftrightarrow> sublist k s"
  by (induction s) (simp_all add: sublist_Cons_right)

lemma includes_lowered_occurrence:
  assumes "sublist occurrence text" and "toLowerCase occurrence = key"
  shows "includes_str (toLowerCase text) key"
  using map_mono_sublist [OF assms(1), of toLowerChar] assms(2)
  by (simp add: includes_str_iff_sublist toLowerCase_def)

lemma firstKeyIn_None: "firstKeyIn m s = None \<longleftrightarrow> (\<forall>(k, v) \<in> set m. \<not> includes_str s k)"
  by (induction m s rule: firstKeyIn.induct) auto

lemma firstKeyIn_first:
  assumes "\<forall>(k, v) \<in> set earlier. \<not> includes_str s k" and "includes_str s key"
  shows "firstKeyIn (earlier @ (key, canonical) # later) s = Some canonical"
  using assms by (induction earlier) auto

lemma pickBrandIn_skip:
  assumes "\<forall>p \<in> set before. firstKeyIn m p = None"
  shows "pickBrandIn m (before @ rest) = pickBrandIn m rest"
  using assms by (induction before) auto

lemma firstKeyIn_eq_find: "firstKeyIn m s = map_option snd (find (\<lambda>(k, v). includes_str s k) m)"
  by (induction m s rule: firstKeyIn.induct) auto

lemma pickBrandIn_single: "pickBrandIn m [s] = spec_brandByMapOrder m [s]"
  by (simp add: spec_brandByMapOrder_def firstKeyIn_eq_find split: option.splits)

text \<open>
  C4, as the specification states it: when more than one keyword matches, the first
  keyword in map order decides. With \<open>adidas\<close> in the first pool string and \<open>nike\<close> in the
  second, the code answers Adidas, although \<open>nike\<close> comes first in the map.
\<close>

theorem pickBrandFromPools_priority_counterexample:
  "pickBrandFromPools [''adidas originals'', ''nike''] = Some ''Adidas''
   \<and> spec_brandByMapOrder brandMap [''adidas originals'', ''nike''] = Some ''Nike''"
  by code_simp

text \<open>
  C4, amended: when a pool string contains a configured keyword in any mix of upper and
  lower case, and no string before it in the pool contains any keyword, brand resolution
  returns the canonical name of the first keyword, in map order, that this string
  contains: the first pool string with a keyword decides, and the map order decides
  within that string. For a pool of one string this is the first keyword in map order.
\<close>

theorem pickBrandFromPools_priority:
  assumes "brandMap = earlier @ (key, canonical) # later"
      and "sublist occurrence text" and "toLowerCase occurrence = key"
      and "\<forall>(k, v) \<in> set earlier. \<not> includes_str (toLowerCase text) k"
      and "\<forall>p \<in> set before. \<forall>(k, v) \<in> set brandMap. \<not> includes_str (toLowerCase p) k"
  shows "pickBrandFromPools (map toLowerCase (before @ text # after)) = Some canonical
    \<and> pickBrandFromPools [toLowerCase text] = spec_brandByMapOrder brandMap [toLowerCase text]"
proof -
  have hit: "firstKeyIn brandMap (toLowerCase text) = Some canonical"
    unfolding assms(1)
    using assms(4) includes_lowered_occurrence [OF assms(2,3)] by (rule firstKeyIn_first)
  have "\<forall>p \<in> set (map toLowerCase before). firstKeyIn brandMap p = None"
    using assms(5) by (simp add: firstKeyIn_None)
  then have "pickBrandIn brandMap (map toLowerCase before @ toLowerCase text # map toLowerCase after)
      = pickBrandIn brandMap (toLowerCase text # map toLowerCase after)"
    by (rule pickBrandIn_skip)
  with hit have first: "pickBrandFromPools (map toLowerCase (before @ text # after)) = Some canonical"
    by (simp add: pickBrandFromPools_def)
  have single: "pickBrandFromPools [toLowerCase text] = spec_brandByMapOrder brandMap [toLowerCase text]"
    unfolding pickBrandFromPools_def by (rule pickBrandIn_single)
  from first single show ?thesis ..
qed

theorem pickBrandFromPools_priority_witness:
  "brandMap = take 3 brandMap @ (''adidas'', ''Adidas'') # drop 4 brandMap
   \<and> sublist ''ADIDAS'' ''Nice ADIDAS Originals''
   \<and> toLowerCase ''ADIDAS'' = ''adidas''
   \<and> list_all (\<lambda>(k, v). \<not> includes_str (toLowerCase ''Nice ADIDAS Originals'') k) (take 3 brandMap)
   \<and> list_all (\<lambda>p. list_all (\<lambda>(k, v). \<not> includes_str (toLowerCase p) k) brandMap) [''Sportswear'']
   \<and> pickBrandFromPools (map toLowerCase ([''Sportswear''] @ ''Nice ADIDAS Originals'' # [''Nike'']))
       = Some ''Adidas''"
proof -
  have h1: "brandMap = take 3 brandMap @ (''adidas'', ''Adidas'') # drop 4 brandMap"
    by (simp add: brandMap_def)
  have h2: "sublist ''ADIDAS'' ''Nice ADIDAS Originals''"
    by code_simp
  have h3: "toLowerCase ''ADIDAS'' = ''adidas''"
    by code_simp
  have h4: "\<forall>(k, v) \<in> set (take 3 brandMap). \<not> includes_str (toLowerCase ''Nice ADIDAS Originals'') k"
    by code_simp
  have h5: "\<forall>p \<in> set [''Sportswear'']. \<forall>(k, v) \<in> set brandMap. \<not> includes_str (toLowerCase p) k"
    by code_simp
  from pickBrandFromPools_priority [OF h1 h2 h3 h4 h5, of "[''Nike'']"] h1 h2 h3 h4 h5
  show ?thesis
    unfolding list_all_iff by blast
qed

section \<open>Colour resolution\<close>

lemma sampleClient_extracts:
  "extractAttributes sampleClient ''png'' =
     Inr \<lparr>brand = Some ''Nike'', category = Some ''t-shirt'',
          colors = Some [''black'', ''white'', ''red''], patterns = Some [''striped''],
          texts = Some [''JUST DO IT'', ''blue'', ''black'']\<rparr>"
  by code_simp

lemma sample_query:
  "buildQuery \<lparr>brand = Some ''Nike'', category = Some ''t-shirt'',
          colors = Some [''black'', ''white'', ''red''], patterns = Some [''striped''],
          texts = Some [''JUST DO IT'', ''blue'', ''black'']\<rparr>
   = (''Nike t-shirt black striped buy'',
      \<lparr>brand = Some ''Nike'', category = Some ''t-shirt'',
          colors = Some [''black'', ''white'', ''red''], patterns = Some [''striped''],
          texts = Some [''JUST DO IT'', ''blue'', ''black'']\<rparr>)"
  by code_simp

lemma distinct_setAdd: "distinct found \<Longrightarrow> distinct (setAdd found c)"
  by (simp add: setAdd_def)

lemma distinct_foldl_setAdd: "distinct found \<Longrightarrow> distinct (foldl setAdd found xs)"
  by (induction xs arbitrary: found) (simp_all add: distinct_setAdd)

lemma distinct_newSet: "distinct (newSet xs)"
  by (simp add: newSet_def distinct_foldl_setAdd)

lemma colors_extractFrom: "\<exists>candidates. colors (extractFrom r) = Some (take 3 (newSet candidates))"
  unfolding extractFrom_def Let_def by (simp del: map_append) blast

lemma extractAttributes_Inr:
  assumes "extractAttributes client imageBuffer = Inr a"
  shows "\<exists>r. a = extractFrom r"
  using assms
  by (auto simp: extractAttributes_def split: sum.splits)

text \<open>
  C7: whenever the extractor returns a record, its colors list is present, has at most
  three entries and holds no string twice.
\<close>

theorem extractAttributes_colors:
  assumes "extractAttributes client imageBuffer = Inr a"
  shows "\<exists>cs. colors a = Some cs \<and> length cs \<le> 3 \<and> distinct cs"
proof -
  obtain r where "a = extractFrom r"
    using extractAttributes_Inr [OF assms] ..
  moreover obtain candidates where "colors (extractFrom r) = Some (take 3 (newSet candidates))"
    using colors_extractFrom ..
  ultimately show ?thesis
    by (simp add: distinct_newSet)
qed

theorem extractAttributes_colors_witness:
  "extractAttributes sampleClient ''png'' =
     Inr \<lparr>brand = Some ''Nike'', category = Some ''t-shirt'',
          colors = Some [''black'', ''white'', ''red''], patterns = Some [''striped''],
          texts = Some [''JUST DO IT'', ''blue'', ''black'']\<rparr>
   \<and> (\<exists>cs. colors \<lparr>brand = Some ''Nike'', category = Some ''t-shirt'',
          colors = Some [''black'', ''white'', ''red''], patterns = Some [''striped''],
          texts = Some [''JUST DO IT'', ''blue'', ''black'']\<rparr> = Some cs
        \<and> length cs \<le> 3 \<and> distinct cs)"
proof -
  from extractAttributes_colors [OF sampleClient_extracts] sampleClient_extracts show ?thesis
    by blast
qed

section \<open>The query builder on extracted records\<close>

lemma toLowerChar_space: "toLowerChar (CHR '' '') = CHR '' ''"
  by code_simp

lemma toLowerCase_join:
  "toLowerCase (join '' '' xs) = join '' '' (map toLowerCase xs)"
  by (induction "'' ''" xs rule: join.induct) (simp_all add: toLowerCase_def toLowerChar_space)

lemma sublist_trans: "sublist u w \<Longrightarrow> sublist w s \<Longrightarrow> sublist u s"
  by (rule sublist_order.order.trans)

lemma teeWords_core:
  assumes "w \<in> set teeWords"
  shows "sublist ''tee'' w \<or> sublist ''shirt'' w"
proof -
  from assms consider "w = ''t-shirt''" | "w = ''tshirt''" | "w = ''tee''" | "w = ''shirt''"
    by (auto simp: teeWords_def)
  then show ?thesis
  proof cases
    case 1
    have "sublist ''shirt'' (''t-'' @ ''shirt'')"
      by (rule sublist_append_leftI)
    with 1 show ?thesis by simp
  next
    case 2
    have "sublist ''shirt'' (''t'' @ ''shirt'')"
      by (rule sublist_append_leftI)
    with 2 show ?thesis by simp
  next
    case 3
    then show ?thesis by simp
  next
    case 4
    then show ?thesis by simp
  qed
qed

lemma teeScan_sublist: "teeScan prevWord s \<Longrightarrow> \<exists>w \<in> set teeWords. sublist w s"
proof (induction s arbitrary: prevWord)
  case Nil
  then have False
    by (simp only: teeScan.simps)
  then show ?case ..
next
  case (Cons c cs)
  from Cons.prems
  have "(\<not> prevWord \<and> list_ex (\<lambda>w. matchHere w (c # cs)) teeWords) \<or> teeScan (isWordChar c) cs"
    by (simp only: teeScan.simps)
  then consider (here) w where "w \<in> set teeWords" "prefix w (c # cs)"
    | (later) "teeScan (isWordChar c) cs"
    unfolding list_ex_iff matchHere_def by blast
  then show ?case
  proof cases
    case here
    from here(2) have "sublist w (c # cs)"
      by (rule prefix_imp_sublist)
    with here(1) show ?thesis ..
  next
    case later
    then obtain w where w: "w \<in> set teeWords" "sublist w cs"
      using Cons.IH by blast
    from w(2) have "sublist w (c # cs)"
      by (simp add: sublist_Cons_right)
    with w(1) show ?thesis ..
  qed
qed

lemma teeRegexTest_core: "teeRegexTest s \<Longrightarrow> sublist ''tee'' s \<or> sublist ''shirt'' s"
  unfolding teeRegexTest_def
  using teeScan_sublist teeWords_core sublist_trans by blast

lemma sublist_join_space:
  assumes "CHR '' '' \<notin> set w" and "w \<noteq> []"
  shows "sublist w (join '' '' xs) \<Longrightarrow> \<exists>x \<in> set xs. sublist w x"
proof (induction "'' ''" xs rule: join.induct)
  case 1
  with assms(2) show ?case by simp
next
  case (2 x)
  then show ?case by simp
next
  case (3 x y ys)
  have no_prefix: "\<not> prefix w2 (CHR '' '' # rest)" if "w2 \<noteq> []" "set w2 \<subseteq> set w" for w2 rest
  proof
    assume "prefix w2 (CHR '' '' # rest)"
    with that(1) have "hd w2 = CHR '' ''"
      by (cases w2) auto
    with that assms(1) show False
      by (metis hd_in_set subsetD)
  qed
  from "3.prems" have "sublist w (x @ CHR '' '' # join '' '' (y # ys))"
    by simp
  then consider "sublist w x" | "sublist w (CHR '' '' # join '' '' (y # ys))"
    | w1 w2 where "w = w1 @ w2" "suffix w1 x" "prefix w2 (CHR '' '' # join '' '' (y # ys))"
    unfolding sublist_append by blast
  then show ?case
  proof cases
    case 1
    then show ?thesis by auto
  next
    case 2
    then have "sublist w (join '' '' (y # ys))"
      using no_prefix [of w] assms(2) by (auto simp: sublist_Cons_right)
    with "3.hyps" show ?thesis by auto
  next
    case 3
    show ?thesis
    proof (cases "w2 = []")
      case True
      with 3 have "sublist w x"
        by auto
      then show ?thesis by auto
    next
      case False
      with 3 no_prefix [of w2] show ?thesis
        by auto
    qed
  qed
qed

lemma pickCategory_tee:
  assumes "s \<in> set pools" and "includes_str s ''tee'' \<or> includes_str s ''shirt''"
  shows "pickCategoryFromPools pools = Some ''t-shirt''"
proof -
  have "list_ex (\<lambda>s. list_ex (\<lambda>g. includes_str s g) [''t-shirt'', ''tee'', ''shirt'', ''jersey'', ''top'']) pools"
    unfolding list_ex_iff using assms by auto
  then show ?thesis
    by (simp add: pickCategoryFromPools_def cats_def)
qed

lemma pickCategoryIn_canonical:
  "pickCategoryIn groups pools = Some c \<Longrightarrow> \<exists>g \<in> set groups. \<exists>rest. g = c # rest"
  by (induction groups pools rule: pickCategoryIn.induct) (auto split: if_splits list.splits)

lemma pickCategoryFromPools_nonempty: "pickCategoryFromPools pools = Some c \<Longrightarrow> c \<noteq> []"
proof -
  assume "pickCategoryFromPools pools = Some c"
  then obtain g rest where "g \<in> set cats" and "g = c # rest"
    unfolding pickCategoryFromPools_def using pickCategoryIn_canonical by blast
  then show ?thesis
    by (auto simp: cats_def)
qed

lemma extractFrom_fields:
  "texts (extractFrom r) = Some (trimmedNonEmpty (orEmpty (textAnnotations r)))"
  "\<exists>before after. category (extractFrom r) =
      pickCategoryFromPools (before @ map toLowerCase (trimmedNonEmpty (orEmpty (textAnnotations r))) @ after)"
  "\<exists>b. brand (extractFrom r) = normalizeBrand b"
proof -
  show "texts (extractFrom r) = Some (trimmedNonEmpty (orEmpty (textAnnotations r)))"
    by (simp add: extractFrom_def Let_def)
  have "category (extractFrom r) =
      pickCategoryFromPools
        (map toLowerCase (map orBlank (orEmpty (logoAnnotations r)) @ map orBlank (orEmpty (labelAnnotations r)))
         @ map toLowerCase (trimmedNonEmpty (orEmpty (textAnnotations r)))
         @ map toLowerCase (trimmedNonEmpty (orEmpty (webEntities r))
             @ filter (\<lambda>s. s \<noteq> []) (map (\<lambda>s. toLowerCase (trim s))
                 (List.map_filter (\<lambda>d. d) (orEmpty (localizedObjectAnnotations r))))))"
    by (simp add: extractFrom_def Let_def)
  then show "\<exists>before after. category (extractFrom r) =
      pickCategoryFromPools (before @ map toLowerCase (trimmedNonEmpty (orEmpty (textAnnotations r))) @ after)"
    by blast
  show "\<exists>b. brand (extractFrom r) = normalizeBrand b"
    unfolding extractFrom_def Let_def by simp blast
qed

lemma no_space_in_core: "CHR '' '' \<notin> set ''tee''" "CHR '' '' \<notin> set ''shirt''"
  by simp_all

lemma extractFrom_inferred:
  assumes "teeRegexTest (toLowerCase (join '' '' (orEmpty (texts (extractFrom r)))))"
  shows "category (extractFrom r) = Some ''t-shirt''"
proof -
  let ?ts = "trimmedNonEmpty (orEmpty (textAnnotations r))"
  have "orEmpty (texts (extractFrom r)) = ?ts"
    by (simp only: extractFrom_fields(1) orEmpty_def option.case)
  with assms have "teeRegexTest (join '' '' (map toLowerCase ?ts))"
    by (simp only: toLowerCase_join)
  then have "sublist ''tee'' (join '' '' (map toLowerCase ?ts))
      \<or> sublist ''shirt'' (join '' '' (map toLowerCase ?ts))"
    by (rule teeRegexTest_core)
  then have "(\<exists>t \<in> set (map toLowerCase ?ts). sublist ''tee'' t)
      \<or> (\<exists>t \<in> set (map toLowerCase ?ts). sublist ''shirt'' t)"
  proof
    assume tee: "sublist ''tee'' (join '' '' (map toLowerCase ?ts))"
    have "\<exists>t \<in> set (map toLowerCase ?ts). sublist ''tee'' t"
      by (rule sublist_join_space [OF no_space_in_core(1) _ tee]) simp
    then show ?thesis ..
  next
    assume shirt: "sublist ''shirt'' (join '' '' (map toLowerCase ?ts))"
    have "\<exists>t \<in> set (map toLowerCase ?ts). sublist ''shirt'' t"
      by (rule sublist_join_space [OF no_space_in_core(2) _ shirt]) simp
    then show ?thesis ..
  qed
  then obtain t where t: "t \<in> set (map toLowerCase ?ts)"
      "includes_str t ''tee'' \<or> includes_str t ''shirt''"
    unfolding includes_str_iff_sublist by blast
  obtain before after where cat:
    "category (extractFrom r) = pickCategoryFromPools (before @ map toLowerCase ?ts @ after)"
    using extractFrom_fields(2) by blast
  have "t \<in> set (before @ map toLowerCase ?ts @ after)"
    using t(1) by (simp only: set_append Un_iff) blast
  then have "pickCategoryFromPools (before @ map toLowerCase ?ts @ after) = Some ''t-shirt''"
    using t(2) by (rule pickCategory_tee)
  with cat show ?thesis
    by (simp only:)
qed

lemma inferCategory_extractFrom: "inferCategory (extractFrom r) = extractFrom r"
  using extractFrom_inferred [of r] by (auto simp: inferCategory_def truthy_def)

lemma truthy_extractFrom:
  "truthy (brand (extractFrom r)) \<longleftrightarrow> brand (extractFrom r) \<noteq> None"
  "truthy (category (extractFrom r)) \<longleftrightarrow> category (extractFrom r) \<noteq> None"
proof -
  obtain b where "brand (extractFrom r) = normalizeBrand b"
    using extractFrom_fields(3) by blast
  then show "truthy (brand (extractFrom r)) \<longleftrightarrow> brand (extractFrom r) \<noteq> None"
    by (auto simp: normalizeBrand_def truthy_def split: option.splits if_splits)
  obtain before after where
    "category (extractFrom r) = pickCategoryFromPools (before @ map toLowerCase (trimmedNonEmpty (orEmpty (textAnnotations r))) @ after)"
    using extractFrom_fields(2) by blast
  then show "truthy (category (extractFrom r)) \<longleftrightarrow> category (extractFrom r) \<noteq> None"
    using pickCategoryFromPools_nonempty by (auto simp: truthy_def split: option.splits)
qed

lemma buildQuery_extractFrom:
  "snd (buildQuery (extractFrom r)) = extractFrom r"
  "fst (buildQuery (extractFrom r)) = [] \<longleftrightarrow>
     brand (extractFrom r) = None \<and> category (extractFrom r) = None"
  by (simp_all add: snd_buildQuery fst_buildQuery_empty inferCategory_extractFrom truthy_extractFrom)

lemma hd_join: "x \<noteq> [] \<Longrightarrow> hd (join sep (x # xs)) = hd x"
  by (cases xs) simp_all

lemma firstKeyIn_value: "firstKeyIn m s = Some v \<Longrightarrow> v \<in> snd ` set m"
  by (induction m s rule: firstKeyIn.induct) (auto split: if_splits)

lemma pickBrandIn_value: "pickBrandIn m pools = Some v \<Longrightarrow> v \<in> snd ` set m"
  by (induction m pools rule: pickBrandIn.induct) (auto split: option.splits dest: firstKeyIn_value)

lemma brand_names_clean: "v \<in> snd ` set brandMap \<Longrightarrow> v \<noteq> [] \<and> \<not> isWhiteSpace (hd v)"
  by (auto simp: brandMap_def isWhiteSpace_def)

lemma category_names_clean:
  assumes "pickCategoryFromPools pools = Some c"
  shows "c \<noteq> [] \<and> \<not> isWhiteSpace (hd c)"
proof -
  from assms obtain g rest where "g \<in> set cats" and "g = c # rest"
    unfolding pickCategoryFromPools_def using pickCategoryIn_canonical by blast
  then show ?thesis
    by (auto simp: cats_def isWhiteSpace_def)
qed

lemma extractFrom_clean_start:
  assumes "truthy (brand (extractFrom r)) \<or> truthy (category (extractFrom r))"
  shows "\<not> isWhiteSpace (hd (join '' '' (spec_queryWords (extractFrom r))))"
proof (cases "truthy (brand (extractFrom r))")
  case True
  then obtain b where b: "brand (extractFrom r) = Some b" "b \<noteq> []"
    by (auto simp: truthy_def split: option.splits)
  obtain x where "brand (extractFrom r) = normalizeBrand (pickBrandFromPools x)"
    unfolding extractFrom_def Let_def by simp
  with b have "pickBrandFromPools x = Some b"
    by (auto simp: normalizeBrand_def split: if_splits)
  then have "\<not> isWhiteSpace (hd b)"
    unfolding pickBrandFromPools_def using pickBrandIn_value brand_names_clean by blast
  then show ?thesis
    using b by (simp add: spec_queryWords_def present_def hd_join)
next
  case False
  with assms obtain c where c: "category (extractFrom r) = Some c" "c \<noteq> []"
    by (auto simp: truthy_def split: option.splits)
  obtain x where "category (extractFrom r) = pickCategoryFromPools x"
    unfolding extractFrom_def Let_def by simp
  with c have "\<not> isWhiteSpace (hd c)"
    using category_names_clean by metis
  moreover from False have "present (brand (extractFrom r)) = []"
    by (auto simp: truthy_def present_def split: option.splits)
  ultimately show ?thesis
    using c by (simp add: spec_queryWords_def present_def hd_join)
qed


lemma buildQuery_extractFrom_exact:
  assumes "fst (buildQuery (extractFrom r)) \<noteq> []"
  shows "fst (buildQuery (extractFrom r)) = join '' '' (spec_queryWords (extractFrom r))"
proof -
  have "truthy (brand (extractFrom r)) \<or> truthy (category (extractFrom r))"
    using assms by (simp add: fst_buildQuery_empty inferCategory_extractFrom)
  then have "trim (join '' '' (spec_queryWords (extractFrom r))) = join '' '' (spec_queryWords (extractFrom r))"
    by (intro trim_joined_words extractFrom_clean_start)
  with fst_buildQuery_nonempty [OF assms] show ?thesis
    by (simp add: buildQuery_extractFrom(1))
qed

text \<open>
  On a record that \<open>extractAttributes\<close> returns, \<open>buildQuery\<close> changes nothing (texts that
  match the t-shirt expression are in the pool, so the category is there already), the
  query is empty exactly when brand and category are both absent, and \<open>trim\<close> removes
  nothing.
\<close>

lemma buildQuery_after_extractAttributes:
  assumes "extractAttributes client imageBuffer = Inr a"
  shows "snd (buildQuery a) = a"
    and "fst (buildQuery a) = [] \<longleftrightarrow> brand a = None \<and> category a = None"
    and "fst (buildQuery a) \<noteq> [] \<Longrightarrow> fst (buildQuery a) = join '' '' (spec_queryWords a)"
proof -
  obtain r where a: "a = extractFrom r"
    using extractAttributes_Inr [OF assms] ..
  show "snd (buildQuery a) = a"
    unfolding a by (rule buildQuery_extractFrom(1))
  show "fst (buildQuery a) = [] \<longleftrightarrow> brand a = None \<and> category a = None"
    unfolding a by (rule buildQuery_extractFrom(2))
  show "fst (buildQuery a) = join '' '' (spec_queryWords a)" if "fst (buildQuery a) \<noteq> []"
    using that unfolding a by (rule buildQuery_extractFrom_exact)
qed

section \<open>What the query builder returns\<close>

text \<open>
  C1, as the specification states it: the query is empty if and only if brand and
  category are both absent from the record passed in. A record with neither, whose
  texts hold the word \<open>tee\<close>, gets the category inferred and a query built.
\<close>

theorem buildQuery_empty_iff_counterexample:
  "\<not> (fst (buildQuery \<lparr>brand = None, category = None, colors = Some [], patterns = Some [],
                        texts = Some [''tee'']\<rparr>) = []
       \<longleftrightarrow> brand \<lparr>brand = None, category = None, colors = Some [], patterns = Some [],
                    texts = Some [''tee'']\<rparr> = None
           \<and> category \<lparr>brand = None, category = None, colors = Some [], patterns = Some [],
                        texts = Some [''tee'']\<rparr> = None)"
  by code_simp

text \<open>
  C1, amended: \<open>buildQuery\<close> returns the empty string if and only if the brand is absent
  or empty, the category is absent or empty, and the texts, joined by spaces and
  lowercased, do not match the t-shirt expression (so that no category is inferred).
  Whenever the brand or the category is a non-empty string the query is not empty. For
  a record that \<open>extractAttributes\<close> returned, the query is empty if and only if brand and
  category are both absent.
\<close>

theorem buildQuery_empty_iff:
  "(fst (buildQuery a) = [] \<longleftrightarrow>
      \<not> truthy (brand a) \<and> \<not> truthy (category a) \<and>
      \<not> teeRegexTest (toLowerCase (join '' '' (orEmpty (texts a)))))
   \<and> (truthy (brand a) \<or> truthy (category a) \<longrightarrow> fst (buildQuery a) \<noteq> [])
   \<and> ((\<exists>client imageBuffer. extractAttributes client imageBuffer = Inr a) \<longrightarrow>
        (fst (buildQuery a) = [] \<longleftrightarrow> brand a = None \<and> category a = None))"
proof -
  have general: "fst (buildQuery a) = [] \<longleftrightarrow>
      \<not> truthy (brand a) \<and> \<not> truthy (category a) \<and>
      \<not> teeRegexTest (toLowerCase (join '' '' (orEmpty (texts a))))"
    by (auto simp: fst_buildQuery_empty inferCategory_category truthy_def)
  have extracted: "fst (buildQuery a) = [] \<longleftrightarrow> brand a = None \<and> category a = None"
    if "\<exists>client imageBuffer. extractAttributes client imageBuffer = Inr a"
  proof -
    from that obtain client imageBuffer where "extractAttributes client imageBuffer = Inr a"
      by blast
    then show ?thesis
      by (rule buildQuery_after_extractAttributes(2))
  qed
  from general extracted show ?thesis
    by blast
qed

theorem buildQuery_empty_iff_witness:
  "truthy (Some ''Nike'')
   \<and> fst (buildQuery \<lparr>brand = Some ''Nike'', category = None, colors = None, patterns = None,
                      texts = Some [''teepee'']\<rparr>) \<noteq> []
   \<and> \<not> teeRegexTest (toLowerCase (join '' '' [''teepee'']))
   \<and> fst (buildQuery \<lparr>brand = None, category = Some [], colors = None, patterns = None,
                      texts = Some [''teepee'']\<rparr>) = []
   \<and> extractAttributes sampleClient ''png''
     = Inr \<lparr>brand = Some ''Nike'', category = Some ''t-shirt'',
          colors = Some [''black'', ''white'', ''red''], patterns = Some [''striped''],
          texts = Some [''JUST DO IT'', ''blue'', ''black'']\<rparr>
   \<and> fst (buildQuery \<lparr>brand = Some ''Nike'', category = Some ''t-shirt'',
          colors = Some [''black'', ''white'', ''red''], patterns = Some [''striped''],
          texts = Some [''JUST DO IT'', ''blue'', ''black'']\<rparr>) \<noteq> []"
proof -
  let ?extracted = "\<lparr>brand = Some ''Nike'', category = Some ''t-shirt'',
          colors = Some [''black'', ''white'', ''red''], patterns = Some [''striped''],
          texts = Some [''JUST DO IT'', ''blue'', ''black'']\<rparr>"
  have scan: "\<not> teeRegexTest (toLowerCase (join '' '' [''teepee'']))"
    by code_simp
  have "\<exists>client imageBuffer. extractAttributes client imageBuffer = Inr ?extracted"
    using sampleClient_extracts by blast
  with buildQuery_empty_iff [of ?extracted]
  have "fst (buildQuery ?extracted) = [] \<longleftrightarrow> brand ?extracted = None \<and> category ?extracted = None"
    by blast
  then have extracted: "fst (buildQuery ?extracted) \<noteq> []"
    by simp
  have present: "fst (buildQuery \<lparr>brand = Some ''Nike'', category = None, colors = None,
        patterns = None, texts = Some [''teepee'']\<rparr>) \<noteq> []"
    using buildQuery_empty_iff [of "\<lparr>brand = Some ''Nike'', category = None, colors = None,
        patterns = None, texts = Some [''teepee'']\<rparr>"]
    by (simp add: truthy_def)
  have absent: "fst (buildQuery \<lparr>brand = None, category = Some [], colors = None,
        patterns = None, texts = Some [''teepee'']\<rparr>) = []"
    using scan buildQuery_empty_iff [of "\<lparr>brand = None, category = Some [], colors = None,
        patterns = None, texts = Some [''teepee'']\<rparr>"]
    by (simp add: truthy_def orEmpty_def)
  from scan extracted present absent sampleClient_extracts show ?thesis
    by (simp add: truthy_def)
qed

text \<open>
  C2, as the specification states it: every field of the record is the same after the
  call as before. The category of a record without one changes when its texts hold the
  word \<open>shirt\<close>.
\<close>

theorem buildQuery_frame_counterexample:
  "category (snd (buildQuery \<lparr>brand = Some ''Nike'', category = None, colors = Some [''black''],
                              patterns = Some [], texts = Some [''Oversized SHIRT'']\<rparr>))
   \<noteq> category \<lparr>brand = Some ''Nike'', category = None, colors = Some [''black''],
                 patterns = Some [], texts = Some [''Oversized SHIRT'']\<rparr>"
  by code_simp

text \<open>
  C2, amended: after \<open>buildQuery\<close> returns, brand, colors, patterns and texts have their
  values from before the call; the category has its value from before the call, except
  that a category that was absent or empty has become \<open>t-shirt\<close> when the texts, joined
  by spaces and lowercased, match the t-shirt expression. A record that
  \<open>extractAttributes\<close> returned is left as it was, in every field.
\<close>

theorem buildQuery_frame:
  "brand (snd (buildQuery a)) = brand a \<and>
   colors (snd (buildQuery a)) = colors a \<and>
   patterns (snd (buildQuery a)) = patterns a \<and>
   texts (snd (buildQuery a)) = texts a \<and>
   category (snd (buildQuery a)) =
     (if \<not> truthy (category a) \<and> teeRegexTest (toLowerCase (join '' '' (orEmpty (texts a))))
      then Some ''t-shirt'' else category a) \<and>
   ((\<exists>client imageBuffer. extractAttributes client imageBuffer = Inr a) \<longrightarrow>
      snd (buildQuery a) = a)"
proof -
  have extracted: "snd (buildQuery a) = a"
    if "\<exists>client imageBuffer. extractAttributes client imageBuffer = Inr a"
  proof -
    from that obtain client imageBuffer where "extractAttributes client imageBuffer = Inr a"
      by blast
    then show ?thesis
      by (rule buildQuery_after_extractAttributes(1))
  qed
  then show ?thesis
    by (simp add: snd_buildQuery inferCategory_frame inferCategory_category)
qed

theorem buildQuery_frame_witness:
  "truthy (Some ''hoodie'')
   \<and> snd (buildQuery \<lparr>brand = None, category = Some ''hoodie'', colors = Some [''red''],
                      patterns = None, texts = Some [''tee'']\<rparr>)
     = \<lparr>brand = None, category = Some ''hoodie'', colors = Some [''red''],
        patterns = None, texts = Some [''tee'']\<rparr>
   \<and> extractAttributes sampleClient ''png''
     = Inr \<lparr>brand = Some ''Nike'', category = Some ''t-shirt'',
          colors = Some [''black'', ''white'', ''red''], patterns = Some [''striped''],
          texts = Some [''JUST DO IT'', ''blue'', ''black'']\<rparr>
   \<and> snd (buildQuery \<lparr>brand = Some ''Nike'', category = Some ''t-shirt'',
          colors = Some [''black'', ''white'', ''red''], patterns = Some [''striped''],
          texts = Some [''JUST DO IT'', ''blue'', ''black'']\<rparr>)
     = \<lparr>brand = Some ''Nike'', category = Some ''t-shirt'',
          colors = Some [''black'', ''white'', ''red''], patterns = Some [''striped''],
          texts = Some [''JUST DO IT'', ''blue'', ''black'']\<rparr>"
proof -
  have "\<exists>client imageBuffer. extractAttributes client imageBuffer
      = Inr \<lparr>brand = Some ''Nike'', category = Some ''t-shirt'',
          colors = Some [''black'', ''white'', ''red''], patterns = Some [''striped''],
          texts = Some [''JUST DO IT'', ''blue'', ''black'']\<rparr>"
    using sampleClient_extracts by blast
  with buildQuery_frame [of "\<lparr>brand = Some ''Nike'', category = Some ''t-shirt'',
          colors = Some [''black'', ''white'', ''red''], patterns = Some [''striped''],
          texts = Some [''JUST DO IT'', ''blue'', ''black'']\<rparr>"]
  have extracted: "snd (buildQuery \<lparr>brand = Some ''Nike'', category = Some ''t-shirt'',
          colors = Some [''black'', ''white'', ''red''], patterns = Some [''striped''],
          texts = Some [''JUST DO IT'', ''blue'', ''black'']\<rparr>)
     = \<lparr>brand = Some ''Nike'', category = Some ''t-shirt'',
          colors = Some [''black'', ''white'', ''red''], patterns = Some [''striped''],
          texts = Some [''JUST DO IT'', ''blue'', ''black'']\<rparr>"
    by blast
  show ?thesis
    using extracted sampleClient_extracts
      buildQuery_frame [of "\<lparr>brand = None, category = Some ''hoodie'', colors = Some [''red''],
        patterns = None, texts = Some [''tee'']\<rparr>"]
    by (simp add: truthy_def)
qed

text \<open>
  C6, as the specification states it: a non-empty query is the brand, the category, the
  first colour, the first pattern and \<open>buy\<close>, joined by spaces. A brand that starts with
  a space loses it, and a record without category whose texts hold the word \<open>tee\<close> gets
  \<open>t-shirt\<close> into its query.
\<close>

theorem buildQuery_concatenates_counterexample:
  "join '' '' (spec_queryWords \<lparr>brand = Some '' Nike'', category = None, colors = Some [],
                                  patterns = Some [], texts = Some []\<rparr>) = '' Nike buy''
   \<and> fst (buildQuery \<lparr>brand = Some '' Nike'', category = None, colors = Some [],
                      patterns = Some [], texts = Some []\<rparr>) = ''Nike buy''
   \<and> join '' '' (spec_queryWords \<lparr>brand = Some ''Nike'', category = None, colors = Some [],
                                  patterns = Some [], texts = Some [''tee'']\<rparr>) = ''Nike buy''
   \<and> fst (buildQuery \<lparr>brand = Some ''Nike'', category = None, colors = Some [],
                      patterns = Some [], texts = Some [''tee'']\<rparr>) = ''Nike t-shirt buy''"
  by code_simp

text \<open>
  C6, amended: a non-empty query is the space-separated concatenation, in this order, of
  the brand of the record, its category (\<open>t-shirt\<close> when the record has none and its
  texts, joined by spaces and lowercased, match the t-shirt expression), its first
  colour, its first pattern and \<open>buy\<close>, each missing component left out, with the white
  space at both ends removed. On a record that \<open>extractAttributes\<close> returned it is the
  concatenation of the record's own brand, category, first colour, first pattern and
  \<open>buy\<close> as it stands. The record of the example gives \<open>Nike t-shirt black buy\<close>.
\<close>

theorem buildQuery_concatenates:
  "(fst (buildQuery a) \<noteq> [] \<longrightarrow>
      fst (buildQuery a) =
        trim (join '' ''
          (present (brand a)
           @ present (if \<not> truthy (category a)
                          \<and> teeRegexTest (toLowerCase (join '' '' (orEmpty (texts a))))
                       then Some ''t-shirt'' else category a)
           @ firstOf (colors a) @ firstOf (patterns a) @ [''buy'']))
      \<and> ((\<exists>client imageBuffer. extractAttributes client imageBuffer = Inr a) \<longrightarrow>
           fst (buildQuery a) =
             join '' ''
               (present (brand a) @ present (category a)
                @ firstOf (colors a) @ firstOf (patterns a) @ [''buy''])))
   \<and> fst (buildQuery \<lparr>brand = Some ''Nike'', category = Some ''t-shirt'', colors = Some [''black''],
                      patterns = None, texts = None\<rparr>) = ''Nike t-shirt black buy''"
proof -
  have example: "fst (buildQuery \<lparr>brand = Some ''Nike'', category = Some ''t-shirt'',
      colors = Some [''black''], patterns = None, texts = None\<rparr>) = ''Nike t-shirt black buy''"
    by code_simp
  have words: "spec_queryWords (snd (buildQuery a)) =
      present (brand a)
      @ present (if \<not> truthy (category a)
                     \<and> teeRegexTest (toLowerCase (join '' '' (orEmpty (texts a))))
                  then Some ''t-shirt'' else category a)
      @ firstOf (colors a) @ firstOf (patterns a) @ [''buy'']"
    by (simp only: spec_queryWords_def snd_buildQuery inferCategory_frame inferCategory_category)
  have trimmed: "fst (buildQuery a) =
        trim (join '' ''
          (present (brand a)
           @ present (if \<not> truthy (category a)
                          \<and> teeRegexTest (toLowerCase (join '' '' (orEmpty (texts a))))
                       then Some ''t-shirt'' else category a)
           @ firstOf (colors a) @ firstOf (patterns a) @ [''buy'']))"
    if "fst (buildQuery a) \<noteq> []"
    using fst_buildQuery_nonempty [OF that] by (simp only: words)
  have extracted: "fst (buildQuery a) =
             join '' ''
               (present (brand a) @ present (category a)
                @ firstOf (colors a) @ firstOf (patterns a) @ [''buy''])"
    if "fst (buildQuery a) \<noteq> []" and "\<exists>client imageBuffer. extractAttributes client imageBuffer = Inr a"
  proof -
    from that(2) obtain client imageBuffer where "extractAttributes client imageBuffer = Inr a"
      by blast
    from buildQuery_after_extractAttributes(3) [OF this that(1)] show ?thesis
      by (simp only: spec_queryWords_def)
  qed
  from example trimmed extracted show ?thesis
    by blast
qed

theorem buildQuery_concatenates_witness:
  "fst (buildQuery \<lparr>brand = Some ''Puma'', category = None, colors = Some [''red'', ''blue''],
                    patterns = Some [''striped'', ''logo''], texts = Some [''my tee'']\<rparr>)
     = ''Puma t-shirt red striped buy''
   \<and> extractAttributes sampleClient ''png''
     = Inr \<lparr>brand = Some ''Nike'', category = Some ''t-shirt'',
          colors = Some [''black'', ''white'', ''red''], patterns = Some [''striped''],
          texts = Some [''JUST DO IT'', ''blue'', ''black'']\<rparr>
   \<and> fst (buildQuery \<lparr>brand = Some ''Nike'', category = Some ''t-shirt'',
          colors = Some [''black'', ''white'', ''red''], patterns = Some [''striped''],
          texts = Some [''JUST DO IT'', ''blue'', ''black'']\<rparr>) = ''Nike t-shirt black striped buy''"
proof -
  let ?a = "\<lparr>brand = Some ''Puma'', category = None, colors = Some [''red'', ''blue''],
             patterns = Some [''striped'', ''logo''], texts = Some [''my tee'']\<rparr>"
  let ?x = "\<lparr>brand = Some ''Nike'', category = Some ''t-shirt'',
          colors = Some [''black'', ''white'', ''red''], patterns = Some [''striped''],
          texts = Some [''JUST DO IT'', ''blue'', ''black'']\<rparr>"
  have ne: "fst (buildQuery ?a) \<noteq> []"
    by (simp add: fst_buildQuery_empty truthy_def)
  have tee: "teeRegexTest (toLowerCase (join '' '' (orEmpty (texts ?a))))"
    by code_simp
  have stripped: "trim ''Puma t-shirt red striped buy'' = ''Puma t-shirt red striped buy''"
    by code_simp
  from buildQuery_concatenates [of ?a] ne
  have "fst (buildQuery ?a) =
        trim (join '' ''
          (present (brand ?a)
           @ present (if \<not> truthy (category ?a)
                          \<and> teeRegexTest (toLowerCase (join '' '' (orEmpty (texts ?a))))
                       then Some ''t-shirt'' else category ?a)
           @ firstOf (colors ?a) @ firstOf (patterns ?a) @ [''buy'']))"
    by blast
  then have first: "fst (buildQuery ?a) = ''Puma t-shirt red striped buy''"
    using tee by (simp add: truthy_def present_def firstOf_def stripped)
  have nx: "fst (buildQuery ?x) \<noteq> []"
    by (simp add: fst_buildQuery_empty truthy_def)
  have "\<exists>client imageBuffer. extractAttributes client imageBuffer = Inr ?x"
    using sampleClient_extracts by blast
  with buildQuery_concatenates [of ?x] nx
  have "fst (buildQuery ?x) =
             join '' ''
               (present (brand ?x) @ present (category ?x)
                @ firstOf (colors ?x) @ firstOf (patterns ?x) @ [''buy''])"
    by blast
  then have second: "fst (buildQuery ?x) = ''Nike t-shirt black striped buy''"
    by (simp add: present_def firstOf_def)
  from first second sampleClient_extracts show ?thesis
    by simp
qed

section \<open>The search adapter\<close>

lemma isDigit_digitChar: "d < 10 \<Longrightarrow> isDigit (digitChar d)"
  unfolding isDigit_def digitChar_def by (rule nth_mem) simp

lemma digits_nonempty: "digits n \<noteq> []"
  by (subst digits.simps) simp

lemma length2_cases: "length xs = 2 \<Longrightarrow> \<exists>a b. xs = [a, b]"
  by (cases xs; cases "tl xs") auto

lemma digits_isDigit: "\<forall>c \<in> set (digits n). isDigit c"
proof (induction n rule: digits.induct)
  case (1 n)
  show ?case
  proof (cases "n < 10")
    case True
    then show ?thesis
      by (subst digits.simps) (simp add: isDigit_digitChar)
  next
    case False
    with "1" show ?thesis
      by (subst digits.simps) (simp add: isDigit_digitChar)
  qed
qed

lemma isDigit_zero: "isDigit (CHR ''0'')"
  by (simp add: isDigit_def)

lemma mapResults_length: "length (mapResults ns items) = min 12 (length items)"
  by (simp add: mapResults_def)

lemma mapResults_nth:
  "i < length (mapResults ns items) \<Longrightarrow> mapResults ns items ! i = toMatchItem ns i (items ! i)"
  by (simp add: mapResults_def nth_enumerate_eq)

lemma searchShopping_success:
  assumes "SERPAPI_KEY env = Some apiKey" and "apiKey \<noteq> []"
      and "fetch env q apiKey = Inr res"
      and "200 \<le> res_status res" and "res_status res \<le> 299"
      and "res_json res = Inr results"
  shows "searchShopping env q = (Inr (mapResults (numberToString env) (orEmpty results)), [q])"
  using assms by (simp add: searchShopping_def)

lemma digit_range: "d < 10 \<Longrightarrow> d \<in> {0, 1, 2, 3, 4, 5, 6, 7, 8, 9 :: nat}"
  by auto

lemma digitValue_digitChar: "d < 10 \<Longrightarrow> digitValue (digitChar d) = d"
  using digit_range [of d] by (auto simp: digitValue_def digitChar_def)

lemma digitChar_nonzero: "0 < d \<Longrightarrow> d < 10 \<Longrightarrow> digitChar d \<noteq> CHR ''0''"
  using digit_range [of d] by (auto simp: digitChar_def)

lemma decimalValue_snoc: "decimalValue (s @ [c]) = 10 * decimalValue s + digitValue c"
  by (simp add: decimalValue_def)

lemma decimalValue_digits: "decimalValue (digits n) = n"
proof (induction n rule: digits.induct)
  case (1 n)
  show ?case
  proof (cases "n < 10")
    case True
    then show ?thesis
      by (subst digits.simps) (simp add: decimalValue_def digitValue_digitChar)
  next
    case False
    with "1" have "decimalValue (digits (n div 10)) = n div 10"
      by simp
    with False show ?thesis
      by (subst digits.simps) (simp add: decimalValue_snoc digitValue_digitChar)
  qed
qed

lemma foldl_zeros: "foldl (\<lambda>n c. 10 * n + digitValue c) 0 (replicate k (CHR ''0'')) = 0"
  by (induction k) (simp_all add: digitValue_def)

lemma decimalValue_zeros: "decimalValue (replicate k (CHR ''0'') @ s) = decimalValue s"
  by (simp add: decimalValue_def foldl_zeros)

lemma digits_single: "n < 10 \<Longrightarrow> digits n = [digitChar n]"
  by (subst digits.simps) simp

lemma digits_leading: "0 < n \<Longrightarrow> hd (digits n) \<noteq> CHR ''0''"
proof (induction n rule: digits.induct)
  case (1 n)
  show ?case
  proof (cases "n < 10")
    case True
    with "1.prems" show ?thesis
      by (simp add: digits_single digitChar_nonzero)
  next
    case False
    then have "0 < n div 10"
      by simp
    with "1.IH" False have "hd (digits (n div 10)) \<noteq> CHR ''0''"
      by simp
    moreover have "digits (n div 10) \<noteq> []"
      by (rule digits_nonempty)
    ultimately show ?thesis
      using False by (subst digits.simps) simp
  qed
qed

lemma padded_digits:
  fixes n :: nat
  defines "m \<equiv> replicate (3 - length (digits n)) (CHR ''0'') @ digits n"
  shows "\<exists>whole d1 d2.
           take (length m - 2) m @ ''.'' @ drop (length m - 2) m = whole @ ''.'' @ [d1, d2]
         \<and> (\<forall>c \<in> set (whole @ [d1, d2]). isDigit c)
         \<and> whole \<noteq> [] \<and> (whole = ''0'' \<or> hd whole \<noteq> CHR ''0'')
         \<and> decimalValue (whole @ [d1, d2]) = n"
proof -
  have len: "3 \<le> length m"
    by (simp add: m_def)
  have all: "\<forall>c \<in> set m. isDigit c"
    using digits_isDigit [of n] isDigit_zero by (auto simp: m_def)
  have "length (drop (length m - 2) m) = 2"
    using len by simp
  then obtain d1 d2 where tail: "drop (length m - 2) m = [d1, d2]"
    using length2_cases by blast
  define whole where "whole = take (length m - 2) m"
  have whole_ne: "whole \<noteq> []"
    using len by (auto simp: whole_def)
  have split: "whole @ [d1, d2] = m"
    unfolding whole_def tail [symmetric] by (rule append_take_drop_id)
  have val: "decimalValue (whole @ [d1, d2]) = n"
    unfolding split by (simp add: m_def decimalValue_zeros decimalValue_digits)
  have digs: "\<forall>c \<in> set (whole @ [d1, d2]). isDigit c"
    unfolding split by (rule all)
  have lead: "whole = ''0'' \<or> hd whole \<noteq> CHR ''0''"
  proof (cases "3 \<le> length (digits n)")
    case True
    then have m: "m = digits n"
      by (simp add: m_def)
    have "0 < n"
    proof (rule ccontr)
      assume "\<not> 0 < n"
      then have "digits n = [digitChar n]"
        by (simp add: digits_single)
      with True show False
        by simp
    qed
    then have "hd (digits n) \<noteq> CHR ''0''"
      by (rule digits_leading)
    moreover have "hd whole = hd (digits n)"
      using True unfolding whole_def m by (cases "digits n") simp_all
    ultimately show ?thesis
      by simp
  next
    case False
    then have k: "length m = 3"
      by (simp add: m_def)
    from False obtain j where j: "3 - length (digits n) = Suc j"
      by (cases "3 - length (digits n)") simp_all
    have "whole = take 1 m"
      by (simp add: whole_def k)
    also have "\<dots> = ''0''"
      by (simp add: m_def j)
    finally show ?thesis
      by simp
  qed
  from tail whole_def digs whole_ne lead val show ?thesis
    by blast
qed

lemma nearest_hundredth:
  fixes y :: rat
  assumes "0 \<le> y"
  shows "y - 1 / 2 < of_nat (nat \<lfloor>y + 1 / 2\<rfloor>) \<and> of_nat (nat \<lfloor>y + 1 / 2\<rfloor>) \<le> y + 1 / 2"
proof -
  have "0 \<le> \<lfloor>y + 1 / 2\<rfloor>"
    using assms by simp
  then have "(of_nat (nat \<lfloor>y + 1 / 2\<rfloor>) :: rat) = of_int \<lfloor>y + 1 / 2\<rfloor>"
    by simp
  moreover have "of_int \<lfloor>y + 1 / 2\<rfloor> \<le> y + 1 / 2" and "y + 1 / 2 < of_int \<lfloor>y + 1 / 2\<rfloor> + 1"
    by linarith+
  ultimately show ?thesis
    by linarith
qed

lemma toFixed2_value:
  assumes "\<bar>x\<bar> < 10 ^ 21"
  shows "\<exists>whole d1 d2.
           toFixed2 ns x = (if x < 0 then ''-'' else []) @ whole @ ''.'' @ [d1, d2]
         \<and> (\<forall>c \<in> set (whole @ [d1, d2]). isDigit c)
         \<and> whole \<noteq> [] \<and> (whole = ''0'' \<or> hd whole \<noteq> CHR ''0'')
         \<and> \<bar>x\<bar> * 100 - 1 / 2 < of_nat (decimalValue (whole @ [d1, d2]))
         \<and> of_nat (decimalValue (whole @ [d1, d2])) \<le> \<bar>x\<bar> * 100 + 1 / 2"
proof -
  define n where "n = nat \<lfloor>\<bar>x\<bar> * 100 + 1 / 2\<rfloor>"
  define m where "m = replicate (3 - length (digits n)) (CHR ''0'') @ digits n"
  have unfolded: "toFixed2 ns x =
      (if x < 0 then ''-'' else []) @ take (length m - 2) m @ ''.'' @ drop (length m - 2) m"
  proof -
    have "\<not> 10 ^ 21 \<le> \<bar>x\<bar>"
      using assms by simp
    then show ?thesis
      unfolding toFixed2_def Let_def m_def n_def by (simp only: if_False)
  qed
  obtain whole d1 d2 where
    parts: "take (length m - 2) m @ ''.'' @ drop (length m - 2) m = whole @ ''.'' @ [d1, d2]"
    and digs: "\<forall>c \<in> set (whole @ [d1, d2]). isDigit c"
    and shape: "whole \<noteq> []" "whole = ''0'' \<or> hd whole \<noteq> CHR ''0''"
    and val: "decimalValue (whole @ [d1, d2]) = n"
    unfolding m_def using padded_digits [of n] by blast
  have "\<bar>x\<bar> * 100 - 1 / 2 < of_nat n \<and> of_nat n \<le> \<bar>x\<bar> * 100 + 1 / 2"
    unfolding n_def by (rule nearest_hundredth) simp
  with unfolded parts digs shape val show ?thesis
    by metis
qed

lemma toFixed2_large:
  "10 ^ 21 \<le> \<bar>x\<bar> \<Longrightarrow> toFixed2 ns x = (if x < 0 then ''-'' else []) @ ns \<bar>x\<bar>"
  by (simp add: toFixed2_def Let_def)

lemma toMatchItem_fields:
  "title (toMatchItem ns i it) = it_title it"
  "url (toMatchItem ns i it) = link it"
  "image_field (toMatchItem ns i it) = thumbnail it"
  by (simp_all add: toMatchItem_def)

lemma toMatchItem_price:
  "\<not> nullish (it_price it) \<Longrightarrow> price (toMatchItem ns i it) = it_price it"
  "nullish (it_price it) \<Longrightarrow> extracted_price it = Some (JNum x) \<Longrightarrow>
     price (toMatchItem ns i it) = Some (JStr (''$'' @ toFixed2 ns x))"
  "nullish (it_price it) \<Longrightarrow> extracted_price it = Some JInfinity \<Longrightarrow>
     price (toMatchItem ns i it) = Some (JStr ''$Infinity'')"
  "nullish (it_price it) \<Longrightarrow> extracted_price it = Some JNegInfinity \<Longrightarrow>
     price (toMatchItem ns i it) = Some (JStr ''$-Infinity'')"
  "nullish (it_price it) \<Longrightarrow> \<not> isNumber (extracted_price it) \<Longrightarrow>
     price (toMatchItem ns i it) = None"
  by (auto simp: toMatchItem_def coalesce_def isNumber_def split: option.splits json.splits)

lemma nat_nearest:
  fixes y :: rat
  assumes "y - 1 / 2 < of_nat v" and "of_nat v \<le> y + 1 / 2"
      and "of_nat k - 1 / 2 \<le> y" and "y < of_nat k + 1 / 2"
  shows "v = k"
proof -
  have "(of_nat k :: rat) - 1 < of_nat v" and "(of_nat v :: rat) < of_nat k + 1"
    using assms by linarith+
  then have "(of_nat k :: rat) < of_nat (v + 1)" and "(of_nat v :: rat) < of_nat (k + 1)"
    by simp_all
  then have "k < v + 1" and "v < k + 1"
    by (simp_all only: of_nat_less_iff)
  then show ?thesis
    by simp
qed

text \<open>
  C8, as the specification states it: a result without \<open>price\<close> whose \<open>extracted_price\<close> is
  a number gets \<open>$\<close> and the number with two decimals. The fifth sample result has the
  number \<open>Infinity\<close> (the literal \<open>1e999\<close> parses to it) and gets \<open>$Infinity\<close>.
\<close>

theorem searchShopping_maps_results_counterexample:
  "it_price (sampleItems ! 4) = Some JNull
   \<and> extracted_price (sampleItems ! 4) = Some JInfinity
   \<and> map_sum id (map price) (fst (searchShopping sampleEnv ''Nike buy''))
     = Inr [Some (JStr ''$19.99''), Some (JStr ''$12.50''), Some (JStr ''$12.50''), None,
            Some (JStr ''$Infinity''), Some (JStr ''$-2.00''),
            Some (JStr ''$19.99''), Some (JStr ''$19.99''), Some (JStr ''$19.99''),
            Some (JStr ''$19.99''), Some (JStr ''$19.99''), Some (JStr ''$19.99'')]"
  by code_simp

text \<open>
  C8, amended: when the search service answers with a list of result objects, the
  adapter returns one \<open>MatchItem\<close> for each of the first twelve results and no more, the
  item at each index made from the result at that index (so the order is the service's,
  and equal results stay apart). The price of an item is the result's \<open>price\<close> when that
  is neither missing nor \<open>null\<close>. Otherwise, when \<open>extracted_price\<close> is a finite number of
  magnitude below \<open>10^21\<close>, it is \<open>$\<close>, a minus sign for a negative number, and the
  magnitude rounded to the nearest hundredth (a tie upwards), written with its integer
  digits, a point and two digits; for a finite number from \<open>10^21\<close> on it is \<open>$\<close>, the sign
  and the runtime's \<open>Number::toString\<close> of the magnitude; for an infinite number it is
  \<open>$Infinity\<close> or \<open>$-Infinity\<close>. When \<open>extracted_price\<close> is not a number the price is absent.
\<close>

theorem searchShopping_maps_results:
  assumes "SERPAPI_KEY env = Some apiKey" and "apiKey \<noteq> []"
      and "fetch env q apiKey = Inr res"
      and "200 \<le> res_status res" and "res_status res \<le> 299"
      and "res_json res = Inr (Some items)"
  shows "\<exists>found. searchShopping env q = (Inr found, [q])
     \<and> length found = min 12 (length items)
     \<and> (\<forall>i < length found.
          title (found ! i) = it_title (items ! i)
        \<and> url (found ! i) = link (items ! i)
        \<and> image_field (found ! i) = thumbnail (items ! i)
        \<and> (\<not> nullish (it_price (items ! i)) \<longrightarrow> price (found ! i) = it_price (items ! i))
        \<and> (nullish (it_price (items ! i)) \<longrightarrow>
             (\<forall>x. extracted_price (items ! i) = Some (JNum x) \<and> \<bar>x\<bar> < 10 ^ 21 \<longrightarrow>
                (\<exists>whole d1 d2.
                   price (found ! i)
                     = Some (JStr (''$'' @ (if x < 0 then ''-'' else []) @ whole @ ''.'' @ [d1, d2]))
                 \<and> (\<forall>c \<in> set (whole @ [d1, d2]). isDigit c)
                 \<and> whole \<noteq> [] \<and> (whole = ''0'' \<or> hd whole \<noteq> CHR ''0'')
                 \<and> \<bar>x\<bar> * 100 - 1 / 2 < of_nat (decimalValue (whole @ [d1, d2]))
                 \<and> of_nat (decimalValue (whole @ [d1, d2])) \<le> \<bar>x\<bar> * 100 + 1 / 2))
           \<and> (\<forall>x. extracted_price (items ! i) = Some (JNum x) \<and> 10 ^ 21 \<le> \<bar>x\<bar> \<longrightarrow>
                price (found ! i)
                  = Some (JStr (''$'' @ (if x < 0 then ''-'' else []) @ numberToString env \<bar>x\<bar>)))
           \<and> (extracted_price (items ! i) = Some JInfinity \<longrightarrow>
                price (found ! i) = Some (JStr ''$Infinity''))
           \<and> (extracted_price (items ! i) = Some JNegInfinity \<longrightarrow>
                price (found ! i) = Some (JStr ''$-Infinity''))
           \<and> (\<not> isNumber (extracted_price (items ! i)) \<longrightarrow> price (found ! i) = None)))"
proof -
  let ?ns = "numberToString env"
  let ?found = "mapResults ?ns items"
  have run: "searchShopping env q = (Inr ?found, [q])"
    using searchShopping_success [OF assms] by (simp add: orEmpty_def)
  have each: "title (?found ! i) = it_title (items ! i)
        \<and> url (?found ! i) = link (items ! i)
        \<and> image_field (?found ! i) = thumbnail (items ! i)
        \<and> (\<not> nullish (it_price (items ! i)) \<longrightarrow> price (?found ! i) = it_price (items ! i))
        \<and> (nullish (it_price (items ! i)) \<longrightarrow>
             (\<forall>x. extracted_price (items ! i) = Some (JNum x) \<and> \<bar>x\<bar> < 10 ^ 21 \<longrightarrow>
                (\<exists>whole d1 d2.
                   price (?found ! i)
                     = Some (JStr (''$'' @ (if x < 0 then ''-'' else []) @ whole @ ''.'' @ [d1, d2]))
                 \<and> (\<forall>c \<in> set (whole @ [d1, d2]). isDigit c)
                 \<and> whole \<noteq> [] \<and> (whole = ''0'' \<or> hd whole \<noteq> CHR ''0'')
                 \<and> \<bar>x\<bar> * 100 - 1 / 2 < of_nat (decimalValue (whole @ [d1, d2]))
                 \<and> of_nat (decimalValue (whole @ [d1, d2])) \<le> \<bar>x\<bar> * 100 + 1 / 2))
           \<and> (\<forall>x. extracted_price (items ! i) = Some (JNum x) \<and> 10 ^ 21 \<le> \<bar>x\<bar> \<longrightarrow>
                price (?found ! i)
                  = Some (JStr (''$'' @ (if x < 0 then ''-'' else []) @ ?ns \<bar>x\<bar>)))
           \<and> (extracted_price (items ! i) = Some JInfinity \<longrightarrow>
                price (?found ! i) = Some (JStr ''$Infinity''))
           \<and> (extracted_price (items ! i) = Some JNegInfinity \<longrightarrow>
                price (?found ! i) = Some (JStr ''$-Infinity''))
           \<and> (\<not> isNumber (extracted_price (items ! i)) \<longrightarrow> price (?found ! i) = None))"
    if "i < length ?found" for i
  proof -
    let ?it = "items ! i"
    have nth: "?found ! i = toMatchItem ?ns i ?it"
      using that by (rule mapResults_nth)
    have small: "\<exists>whole d1 d2.
                   price (toMatchItem ?ns i ?it)
                     = Some (JStr (''$'' @ (if x < 0 then ''-'' else []) @ whole @ ''.'' @ [d1, d2]))
                 \<and> (\<forall>c \<in> set (whole @ [d1, d2]). isDigit c)
                 \<and> whole \<noteq> [] \<and> (whole = ''0'' \<or> hd whole \<noteq> CHR ''0'')
                 \<and> \<bar>x\<bar> * 100 - 1 / 2 < of_nat (decimalValue (whole @ [d1, d2]))
                 \<and> of_nat (decimalValue (whole @ [d1, d2])) \<le> \<bar>x\<bar> * 100 + 1 / 2"
      if nul: "nullish (it_price ?it)" and ext: "extracted_price ?it = Some (JNum x)"
        and below: "\<bar>x\<bar> < 10 ^ 21"
      for x
    proof -
      obtain whole d1 d2 where
        "toFixed2 ?ns x = (if x < 0 then ''-'' else []) @ whole @ ''.'' @ [d1, d2]"
        and rest: "\<forall>c \<in> set (whole @ [d1, d2]). isDigit c" "whole \<noteq> []"
          "whole = ''0'' \<or> hd whole \<noteq> CHR ''0''"
          "\<bar>x\<bar> * 100 - 1 / 2 < of_nat (decimalValue (whole @ [d1, d2]))"
          "of_nat (decimalValue (whole @ [d1, d2])) \<le> \<bar>x\<bar> * 100 + 1 / 2"
        using toFixed2_value [OF below, of ?ns] by blast
      then have "price (toMatchItem ?ns i ?it)
          = Some (JStr (''$'' @ (if x < 0 then ''-'' else []) @ whole @ ''.'' @ [d1, d2]))"
        using toMatchItem_price(2) [OF nul ext, of ?ns i] by simp
      with rest show ?thesis
        by blast
    qed
    have large: "price (toMatchItem ?ns i ?it)
          = Some (JStr (''$'' @ (if x < 0 then ''-'' else []) @ ?ns \<bar>x\<bar>))"
      if "nullish (it_price ?it)" and "extracted_price ?it = Some (JNum x)" and "10 ^ 21 \<le> \<bar>x\<bar>"
      for x
      using toMatchItem_price(2) [OF that(1,2), of ?ns i] toFixed2_large [OF that(3), of ?ns]
      by simp
    from small large toMatchItem_fields [of ?ns i ?it] toMatchItem_price(1,3,4,5) [of ?it ?ns i]
    show ?thesis
      unfolding nth by blast
  qed
  from run each mapResults_length [of ?ns items] show ?thesis
    by blast
qed

theorem searchShopping_maps_results_witness:
  "SERPAPI_KEY sampleEnv = Some ''key'' \<and> ''key'' \<noteq> []
   \<and> fetch sampleEnv ''Nike buy'' ''key'' = Inr \<lparr>res_status = 200, res_json = Inr (Some sampleItems)\<rparr>
   \<and> length sampleItems = 14
   \<and> (\<exists>found. searchShopping sampleEnv ''Nike buy'' = (Inr found, [''Nike buy''])
        \<and> length found = 12
        \<and> price (found ! 0) = Some (JStr ''$19.99'')
        \<and> (\<exists>whole d1 d2. price (found ! 1) = Some (JStr (''$'' @ whole @ ''.'' @ [d1, d2]))
              \<and> decimalValue (whole @ [d1, d2]) = 1250)
        \<and> title (found ! 2) = Some (JStr ''Plain tee'')
        \<and> price (found ! 3) = None
        \<and> price (found ! 4) = Some (JStr ''$Infinity'')
        \<and> (\<exists>whole d1 d2. price (found ! 5) = Some (JStr (''$-'' @ whole @ ''.'' @ [d1, d2]))
              \<and> decimalValue (whole @ [d1, d2]) = 200))"
proof -
  let ?res = "\<lparr>res_status = 200, res_json = Inr (Some sampleItems)\<rparr>"
  have h1: "SERPAPI_KEY sampleEnv = Some ''key''" and h2: "''key'' \<noteq> []"
    and h3: "fetch sampleEnv ''Nike buy'' ''key'' = Inr ?res"
    and h4: "200 \<le> res_status ?res" and h5: "res_status ?res \<le> 299"
    and h6: "res_json ?res = Inr (Some sampleItems)"
    by (simp_all add: sampleEnv_def)
  have len: "length sampleItems = 14"
    by (simp add: sampleItems_def)
  have i0: "sampleItems ! 0 = pricedItem" and i1: "sampleItems ! 1 = unpricedItem"
    and i2: "sampleItems ! 2 = unpricedItem"
    and i3: "sampleItems ! 3 = unpricedItem\<lparr>extracted_price := Some (JStr ''12.5'')\<rparr>"
    and i4: "sampleItems ! 4 = unpricedItem\<lparr>extracted_price := Some JInfinity\<rparr>"
    and i5: "sampleItems ! 5 = unpricedItem\<lparr>extracted_price := Some (JNum (-1999 / 1000))\<rparr>"
    by (simp_all add: sampleItems_def)
  obtain found where run: "searchShopping sampleEnv ''Nike buy'' = (Inr found, [''Nike buy''])"
    and n: "length found = min 12 (length sampleItems)"
    and each: "\<forall>i < length found.
          title (found ! i) = it_title (sampleItems ! i)
        \<and> url (found ! i) = link (sampleItems ! i)
        \<and> image_field (found ! i) = thumbnail (sampleItems ! i)
        \<and> (\<not> nullish (it_price (sampleItems ! i)) \<longrightarrow> price (found ! i) = it_price (sampleItems ! i))
        \<and> (nullish (it_price (sampleItems ! i)) \<longrightarrow>
             (\<forall>x. extracted_price (sampleItems ! i) = Some (JNum x) \<and> \<bar>x\<bar> < 10 ^ 21 \<longrightarrow>
                (\<exists>whole d1 d2.
                   price (found ! i)
                     = Some (JStr (''$'' @ (if x < 0 then ''-'' else []) @ whole @ ''.'' @ [d1, d2]))
                 \<and> (\<forall>c \<in> set (whole @ [d1, d2]). isDigit c)
                 \<and> whole \<noteq> [] \<and> (whole = ''0'' \<or> hd whole \<noteq> CHR ''0'')
                 \<and> \<bar>x\<bar> * 100 - 1 / 2 < of_nat (decimalValue (whole @ [d1, d2]))
                 \<and> of_nat (decimalValue (whole @ [d1, d2])) \<le> \<bar>x\<bar> * 100 + 1 / 2))
           \<and> (\<forall>x. extracted_price (sampleItems ! i) = Some (JNum x) \<and> 10 ^ 21 \<le> \<bar>x\<bar> \<longrightarrow>
                price (found ! i)
                  = Some (JStr (''$'' @ (if x < 0 then ''-'' else []) @ numberToString sampleEnv \<bar>x\<bar>)))
           \<and> (extracted_price (sampleItems ! i) = Some JInfinity \<longrightarrow>
                price (found ! i) = Some (JStr ''$Infinity''))
           \<and> (extracted_price (sampleItems ! i) = Some JNegInfinity \<longrightarrow>
                price (found ! i) = Some (JStr ''$-Infinity''))
           \<and> (\<not> isNumber (extracted_price (sampleItems ! i)) \<longrightarrow> price (found ! i) = None))"
    using searchShopping_maps_results [OF h1 h2 h3 h4 h5 h6] by blast
  have n12: "length found = 12"
    using n len by simp
  have in0: "0 < length found" and in1: "1 < length found" and in2: "2 < length found"
    and in3: "3 < length found" and in4: "4 < length found" and in5: "5 < length found"
    using n12 by simp_all
  have nul: "nullish (it_price unpricedItem)"
    and nul3: "nullish (it_price (unpricedItem\<lparr>extracted_price := Some (JStr ''12.5'')\<rparr>))"
    and nul4: "nullish (it_price (unpricedItem\<lparr>extracted_price := Some JInfinity\<rparr>))"
    and nul5: "nullish (it_price (unpricedItem\<lparr>extracted_price := Some (JNum (-1999 / 1000))\<rparr>))"
    by (simp_all add: unpricedItem_def nullish_def)
  note at0 = each [rule_format, OF in0, unfolded i0]
  note at1 = each [rule_format, OF in1, unfolded i1, THEN conjunct2, THEN conjunct2,
      THEN conjunct2, THEN conjunct2, THEN mp, OF nul]
  note at2 = each [rule_format, OF in2, unfolded i2]
  note at3 = each [rule_format, OF in3, unfolded i3, THEN conjunct2, THEN conjunct2,
      THEN conjunct2, THEN conjunct2, THEN mp, OF nul3]
  note at4 = each [rule_format, OF in4, unfolded i4, THEN conjunct2, THEN conjunct2,
      THEN conjunct2, THEN conjunct2, THEN mp, OF nul4]
  note at5 = each [rule_format, OF in5, unfolded i5, THEN conjunct2, THEN conjunct2,
      THEN conjunct2, THEN conjunct2, THEN mp, OF nul5]
  have "\<not> nullish (it_price pricedItem)" and "it_price pricedItem = Some (JStr ''$19.99'')"
    by (simp_all add: pricedItem_def nullish_def)
  with at0 have p0: "price (found ! 0) = Some (JStr ''$19.99'')"
    by simp
  have "extracted_price unpricedItem = Some (JNum (25 / 2)) \<and> \<bar>25 / 2 :: rat\<bar> < 10 ^ 21"
    by (simp add: unpricedItem_def)
  with at1 [THEN conjunct1, THEN spec, of "25 / 2"] obtain w1 a1 b1 where
    q1: "price (found ! 1)
          = Some (JStr (''$'' @ (if (25 / 2 :: rat) < 0 then ''-'' else []) @ w1 @ ''.'' @ [a1, b1]))"
    and lo1: "\<bar>25 / 2 :: rat\<bar> * 100 - 1 / 2 < of_nat (decimalValue (w1 @ [a1, b1]))"
    and hi1: "of_nat (decimalValue (w1 @ [a1, b1])) \<le> \<bar>25 / 2 :: rat\<bar> * 100 + 1 / 2"
    by blast
  have v1: "decimalValue (w1 @ [a1, b1]) = 1250"
    using lo1 hi1 by (rule nat_nearest) simp_all
  from q1 have p1: "price (found ! 1) = Some (JStr (''$'' @ w1 @ ''.'' @ [a1, b1]))"
    by simp
  from at2 have p2: "title (found ! 2) = Some (JStr ''Plain tee'')"
    by (simp add: unpricedItem_def)
  have "\<not> isNumber (extracted_price (unpricedItem\<lparr>extracted_price := Some (JStr ''12.5'')\<rparr>))"
    by (simp add: isNumber_def)
  with at3 have p3: "price (found ! 3) = None"
    by blast
  have "extracted_price (unpricedItem\<lparr>extracted_price := Some JInfinity\<rparr>) = Some JInfinity"
    by simp
  with at4 have p4: "price (found ! 4) = Some (JStr ''$Infinity'')"
    by blast
  have "extracted_price (unpricedItem\<lparr>extracted_price := Some (JNum (-1999 / 1000))\<rparr>)
        = Some (JNum (-1999 / 1000)) \<and> \<bar>-1999 / 1000 :: rat\<bar> < 10 ^ 21"
    by simp
  with at5 [THEN conjunct1, THEN spec, of "-1999 / 1000"] obtain w5 a5 b5 where
    q5: "price (found ! 5)
          = Some (JStr (''$'' @ (if (-1999 / 1000 :: rat) < 0 then ''-'' else []) @ w5 @ ''.'' @ [a5, b5]))"
    and lo5: "\<bar>-1999 / 1000 :: rat\<bar> * 100 - 1 / 2 < of_nat (decimalValue (w5 @ [a5, b5]))"
    and hi5: "of_nat (decimalValue (w5 @ [a5, b5])) \<le> \<bar>-1999 / 1000 :: rat\<bar> * 100 + 1 / 2"
    by blast
  have v5: "decimalValue (w5 @ [a5, b5]) = 200"
    using lo5 hi5 by (rule nat_nearest) simp_all
  from q5 have p5: "price (found ! 5) = Some (JStr (''$-'' @ w5 @ ''.'' @ [a5, b5]))"
    by simp
  from p1 v1 have e1: "\<exists>whole d1 d2. price (found ! 1) = Some (JStr (''$'' @ whole @ ''.'' @ [d1, d2]))
              \<and> decimalValue (whole @ [d1, d2]) = 1250"
    by blast
  from p5 v5 have e5: "\<exists>whole d1 d2. price (found ! 5) = Some (JStr (''$-'' @ whole @ ''.'' @ [d1, d2]))
              \<and> decimalValue (whole @ [d1, d2]) = 200"
    by blast
  from run n12 p0 e1 p2 p3 p4 e5
  have "\<exists>found. searchShopping sampleEnv ''Nike buy'' = (Inr found, [''Nike buy''])
        \<and> length found = 12
        \<and> price (found ! 0) = Some (JStr ''$19.99'')
        \<and> (\<exists>whole d1 d2. price (found ! 1) = Some (JStr (''$'' @ whole @ ''.'' @ [d1, d2]))
              \<and> decimalValue (whole @ [d1, d2]) = 1250)
        \<and> title (found ! 2) = Some (JStr ''Plain tee'')
        \<and> price (found ! 3) = None
        \<and> price (found ! 4) = Some (JStr ''$Infinity'')
        \<and> (\<exists>whole d1 d2. price (found ! 5) = Some (JStr (''$-'' @ whole @ ''.'' @ [d1, d2]))
              \<and> decimalValue (whole @ [d1, d2]) = 200)"
    by (intro exI [of _ found] conjI)
  with h1 h2 h3 len show ?thesis
    by (intro conjI)
qed

text \<open>
  C10: every \<open>MatchItem\<close> the adapter returns has an \<open>id\<close> that is neither missing nor
  \<open>null\<close>: the result's \<open>product_id\<close> when that is neither missing nor \<open>null\<close>, else its
  \<open>position\<close> under the same condition, else the index of the result in the list.
\<close>

theorem searchShopping_ids:
  assumes "SERPAPI_KEY env = Some apiKey" and "apiKey \<noteq> []"
      and "fetch env q apiKey = Inr res"
      and "200 \<le> res_status res" and "res_status res \<le> 299"
      and "res_json res = Inr (Some items)"
  shows "\<exists>found. searchShopping env q = (Inr found, [q])
     \<and> (\<forall>i < length found.
          id_field (found ! i) \<noteq> None \<and> id_field (found ! i) \<noteq> Some JNull
        \<and> id_field (found ! i) =
            (if \<not> nullish (product_id (items ! i)) then product_id (items ! i)
             else if \<not> nullish (position (items ! i)) then position (items ! i)
             else Some (JNum (of_nat i))))"
proof -
  let ?ns = "numberToString env"
  let ?found = "mapResults ?ns items"
  have run: "searchShopping env q = (Inr ?found, [q])"
    using searchShopping_success [OF assms] by (simp add: orEmpty_def)
  have each: "id_field (?found ! i) \<noteq> None \<and> id_field (?found ! i) \<noteq> Some JNull
        \<and> id_field (?found ! i) =
            (if \<not> nullish (product_id (items ! i)) then product_id (items ! i)
             else if \<not> nullish (position (items ! i)) then position (items ! i)
             else Some (JNum (of_nat i)))"
    if "i < length ?found" for i
  proof -
    have nth: "?found ! i = toMatchItem ?ns i (items ! i)"
      using that by (rule mapResults_nth)
    show ?thesis
      unfolding nth by (auto simp: toMatchItem_def coalesce_def nullish_def)
  qed
  from run each show ?thesis
    by blast
qed

theorem searchShopping_ids_witness:
  "SERPAPI_KEY sampleEnv = Some ''key'' \<and> ''key'' \<noteq> []
   \<and> fetch sampleEnv ''Puma hoodie buy'' ''key''
       = Inr \<lparr>res_status = 200, res_json = Inr (Some sampleItems)\<rparr>
   \<and> (\<exists>found. searchShopping sampleEnv ''Puma hoodie buy'' = (Inr found, [''Puma hoodie buy''])
        \<and> 2 < length found
        \<and> id_field (found ! 0) = Some (JStr ''p-881'')
        \<and> id_field (found ! 2) = Some (JNum 2))"
proof -
  let ?res = "\<lparr>res_status = 200, res_json = Inr (Some sampleItems)\<rparr>"
  have h1: "SERPAPI_KEY sampleEnv = Some ''key''" and h2: "''key'' \<noteq> []"
    and h3: "fetch sampleEnv ''Puma hoodie buy'' ''key'' = Inr ?res"
    and h4: "200 \<le> res_status ?res" and h5: "res_status ?res \<le> 299"
    and h6: "res_json ?res = Inr (Some sampleItems)"
    by (simp_all add: sampleEnv_def)
  have i0: "sampleItems ! 0 = pricedItem" and i2: "sampleItems ! 2 = unpricedItem"
    by (simp_all add: sampleItems_def)
  obtain found where run: "searchShopping sampleEnv ''Puma hoodie buy'' = (Inr found, [''Puma hoodie buy''])"
    and each: "\<forall>i < length found.
          id_field (found ! i) \<noteq> None \<and> id_field (found ! i) \<noteq> Some JNull
        \<and> id_field (found ! i) =
            (if \<not> nullish (product_id (sampleItems ! i)) then product_id (sampleItems ! i)
             else if \<not> nullish (position (sampleItems ! i)) then position (sampleItems ! i)
             else Some (JNum (of_nat i)))"
    using searchShopping_ids [OF h1 h2 h3 h4 h5 h6] by blast
  have "fst (searchShopping sampleEnv ''Puma hoodie buy'')
      = Inr (mapResults (numberToString sampleEnv) sampleItems)"
    by (simp add: searchShopping_def sampleEnv_def orEmpty_def)
  with run have n: "length found = 12"
    by (simp add: mapResults_length sampleItems_def)
  have p0: "id_field (found ! 0) = Some (JStr ''p-881'')"
    using each [rule_format, of 0] n by (simp add: i0 pricedItem_def nullish_def)
  have p2: "id_field (found ! 2) = Some (JNum 2)"
    using each [rule_format, of 2] n by (simp add: i2 unpricedItem_def nullish_def)
  from h1 h2 h3 run n p0 p2 show ?thesis
    by auto
qed

section \<open>The orchestrator\<close>

lemma POST_with_after_query:
  assumes "form req = Inr fd" and "file_field fd = Some (FFile buf)"
      and "extractAttributes client buf = Inr extracted"
  shows "POST_with useSerpapi client env req =
     (let q = fst (buildQuery extracted);
          info = \<lparr>projectId = (case getProjectId client of Inl _ \<Rightarrow> None | Inr p \<Rightarrow> Some p),
                  query = q, attributes = snd (buildQuery extracted), count = 0, dry = None\<rparr>;
          dbg = (debugParam req = Some ''1'')
      in if q = []
         then (\<lparr>status = 200, matches = Some [], note_field = None, error = None,
                 debug = debugPayload dbg info\<rparr>, [])
         else if \<not> useSerpapi
         then (\<lparr>status = 200, matches = Some [], note_field = None, error = None,
                 debug = debugPayload dbg (info\<lparr>dry := Some True\<rparr>)\<rparr>, [])
         else (case searchShopping env q of
                 (Inl e, sent) \<Rightarrow> (failed e, sent)
               | (Inr found, sent) \<Rightarrow>
                  (\<lparr>status = 200, matches = Some found, note_field = None, error = None,
                     debug = debugPayload dbg (info\<lparr>count := length found\<rparr>)\<rparr>, sent)))"
  using assms
  by (simp add: POST_with_def Let_def truthyValue_def arrayBuffer_def split: prod.splits sum.splits)

text \<open>
  C3: with the toggle off, a request whose file is read, whose annotations arrive and
  whose query is not empty is answered with status 200 and an empty \<open>matches\<close> list, and
  nothing is sent to the search service; \<open>POST\<close> itself runs with the toggle off.
\<close>

theorem POST_dry_run:
  assumes "form req = Inr fd" and "file_field fd = Some (FFile buf)"
      and "extractAttributes client buf = Inr extracted"
      and "fst (buildQuery extracted) \<noteq> []"
  shows "(\<not> useSerpapi \<longrightarrow>
            status (fst (POST_with useSerpapi client env req)) = 200
          \<and> matches (fst (POST_with useSerpapi client env req)) = Some []
          \<and> snd (POST_with useSerpapi client env req) = [])
       \<and> status (fst (POST client env req)) = 200
       \<and> matches (fst (POST client env req)) = Some []
       \<and> snd (POST client env req) = []"
  using assms(4)
  by (simp add: POST_def USE_SERPAPI_def POST_with_after_query [OF assms(1-3)] Let_def)

theorem POST_dry_run_witness:
  "form \<lparr>debugParam = None, form = Inr \<lparr>file_field = Some (FFile ''png''), tiktokUrl = None\<rparr>\<rparr>
     = Inr \<lparr>file_field = Some (FFile ''png''), tiktokUrl = None\<rparr>
   \<and> fst (buildQuery \<lparr>brand = Some ''Nike'', category = Some ''t-shirt'',
          colors = Some [''black'', ''white'', ''red''], patterns = Some [''striped''],
          texts = Some [''JUST DO IT'', ''blue'', ''black'']\<rparr>) = ''Nike t-shirt black striped buy''
   \<and> status (fst (POST sampleClient sampleEnv
        \<lparr>debugParam = None, form = Inr \<lparr>file_field = Some (FFile ''png''), tiktokUrl = None\<rparr>\<rparr>)) = 200
   \<and> matches (fst (POST sampleClient sampleEnv
        \<lparr>debugParam = None, form = Inr \<lparr>file_field = Some (FFile ''png''), tiktokUrl = None\<rparr>\<rparr>)) = Some []
   \<and> snd (POST sampleClient sampleEnv
        \<lparr>debugParam = None, form = Inr \<lparr>file_field = Some (FFile ''png''), tiktokUrl = None\<rparr>\<rparr>) = []"
proof -
  let ?fd = "\<lparr>file_field = Some (FFile ''png''), tiktokUrl = None\<rparr>"
  let ?req = "\<lparr>debugParam = None, form = Inr ?fd\<rparr>"
  have h1: "form ?req = Inr ?fd" and h2: "file_field ?fd = Some (FFile ''png'')"
    by simp_all
  have h4: "fst (buildQuery \<lparr>brand = Some ''Nike'', category = Some ''t-shirt'',
          colors = Some [''black'', ''white'', ''red''], patterns = Some [''striped''],
          texts = Some [''JUST DO IT'', ''blue'', ''black'']\<rparr>) \<noteq> []"
    by (simp add: sample_query)
  from POST_dry_run [OF h1 h2 sampleClient_extracts h4, of False sampleEnv] h1
  show ?thesis
    by (simp add: sample_query)
qed

text \<open>
  C9: a request whose form has neither a \<open>file\<close> nor a \<open>tiktokUrl\<close> field is answered
  with status 400 and an \<open>error\<close> field, and so is one whose only field is an empty
  \<open>tiktokUrl\<close>; a request with no file and a \<open>tiktokUrl\<close> that is a non-empty string is
  answered with status 200, an empty \<open>matches\<close> list and a \<open>note\<close> field. This holds for
  either setting of the toggle, so for \<open>POST\<close>.
\<close>

theorem POST_missing_input:
  assumes "form req = Inr fd" and "file_field fd = None"
  shows "(tiktokUrl fd = None \<or> tiktokUrl fd = Some (FString []) \<longrightarrow>
            status (fst (POST_with useSerpapi client env req)) = 400
          \<and> error (fst (POST_with useSerpapi client env req)) \<noteq> None)
       \<and> (\<forall>u. tiktokUrl fd = Some (FString u) \<and> u \<noteq> [] \<longrightarrow>
            status (fst (POST_with useSerpapi client env req)) = 200
          \<and> matches (fst (POST_with useSerpapi client env req)) = Some []
          \<and> note_field (fst (POST_with useSerpapi client env req)) \<noteq> None)"
  using assms
  by (auto simp: POST_with_def Let_def truthyValue_def)

theorem POST_missing_input_witness:
  "status (fst (POST sampleClient sampleEnv
      \<lparr>debugParam = None, form = Inr \<lparr>file_field = None, tiktokUrl = None\<rparr>\<rparr>)) = 400
   \<and> error (fst (POST sampleClient sampleEnv
      \<lparr>debugParam = None, form = Inr \<lparr>file_field = None, tiktokUrl = None\<rparr>\<rparr>)) \<noteq> None
   \<and> status (fst (POST sampleClient sampleEnv
      \<lparr>debugParam = None,
       form = Inr \<lparr>file_field = None, tiktokUrl = Some (FString ''https://www.tiktok.com/@user/video/7'')\<rparr>\<rparr>)) = 200
   \<and> matches (fst (POST sampleClient sampleEnv
      \<lparr>debugParam = None,
       form = Inr \<lparr>file_field = None, tiktokUrl = Some (FString ''https://www.tiktok.com/@user/video/7'')\<rparr>\<rparr>)) = Some []
   \<and> note_field (fst (POST sampleClient sampleEnv
      \<lparr>debugParam = None,
       form = Inr \<lparr>file_field = None, tiktokUrl = Some (FString ''https://www.tiktok.com/@user/video/7'')\<rparr>\<rparr>)) \<noteq> None"
  using
    POST_missing_input [of "\<lparr>debugParam = None, form = Inr \<lparr>file_field = None, tiktokUrl = None\<rparr>\<rparr>"
      "\<lparr>file_field = None, tiktokUrl = None\<rparr>" USE_SERPAPI sampleClient sampleEnv]
    POST_missing_input [of "\<lparr>debugParam = None,
       form = Inr \<lparr>file_field = None, tiktokUrl = Some (FString ''https://www.tiktok.com/@user/video/7'')\<rparr>\<rparr>"
      "\<lparr>file_field = None, tiktokUrl = Some (FString ''https://www.tiktok.com/@user/video/7'')\<rparr>"
      USE_SERPAPI sampleClient sampleEnv]
  by (simp add: POST_def)

text \<open>
  C5, as the specification states it: with \<open>debug=1\<close> every response carries a debug
  payload. The answer to a link-only request, as the page sends it with \<open>debug=1\<close>,
  carries none.
\<close>

theorem POST_debug_payload_counterexample:
  "debugParam \<lparr>debugParam = Some ''1'',
      form = Inr \<lparr>file_field = None, tiktokUrl = Some (FString ''https://www.tiktok.com/@user/video/1'')\<rparr>\<rparr>
     = Some ''1''
   \<and> debug (fst (POST sampleClient sampleEnv \<lparr>debugParam = Some ''1'',
      form = Inr \<lparr>file_field = None, tiktokUrl = Some (FString ''https://www.tiktok.com/@user/video/1'')\<rparr>\<rparr>))
     = None"
  by (simp add: POST_def POST_with_def truthyValue_def)

text \<open>
  C5, amended: for a request with \<open>debug=1\<close>, the response carries a debug payload
  exactly when it is one of the answers given after attribute extraction and query
  building (status 200 without a \<open>note\<close>: empty query, dry run, search done); the 400
  answer, the placeholder answer to a link and the 500 answer carry none. On the dry run
  and on an empty query the payload holds the query, the attributes as \<open>buildQuery\<close> left
  them, and the count 0.
\<close>

theorem POST_debug_payload:
  assumes "debugParam req = Some ''1''"
  shows "(debug (fst (POST_with useSerpapi client env req)) \<noteq> None
           \<longleftrightarrow> status (fst (POST_with useSerpapi client env req)) = 200
               \<and> note_field (fst (POST_with useSerpapi client env req)) = None)
       \<and> (\<forall>fd buf extracted.
             form req = Inr fd \<and> file_field fd = Some (FFile buf)
             \<and> extractAttributes client buf = Inr extracted
             \<and> (fst (buildQuery extracted) = [] \<or> \<not> useSerpapi) \<longrightarrow>
             (\<exists>info. debug (fst (POST_with useSerpapi client env req)) = Some info
                \<and> query info = fst (buildQuery extracted)
                \<and> attributes info = snd (buildQuery extracted)
                \<and> count info = 0))"
proof -
  have branches: "debug (fst (POST_with useSerpapi client env req)) \<noteq> None
           \<longleftrightarrow> status (fst (POST_with useSerpapi client env req)) = 200
               \<and> note_field (fst (POST_with useSerpapi client env req)) = None"
    using assms
    by (auto simp: POST_with_def Let_def failed_def debugPayload_def
        split: sum.splits prod.splits if_splits)
  have payload: "\<exists>info. debug (fst (POST_with useSerpapi client env req)) = Some info
                \<and> query info = fst (buildQuery extracted)
                \<and> attributes info = snd (buildQuery extracted)
                \<and> count info = 0"
    if "form req = Inr fd" and "file_field fd = Some (FFile buf)"
      and "extractAttributes client buf = Inr extracted"
      and "fst (buildQuery extracted) = [] \<or> \<not> useSerpapi"
    for fd buf extracted
    using that(4) assms
    by (auto simp: POST_with_after_query [OF that(1-3)] Let_def debugPayload_def)
  from branches payload show ?thesis
    by blast
qed

theorem POST_debug_payload_witness:
  "debugParam \<lparr>debugParam = Some ''1'',
       form = Inr \<lparr>file_field = Some (FFile ''png''), tiktokUrl = None\<rparr>\<rparr> = Some ''1''
   \<and> status (fst (POST sampleClient sampleEnv \<lparr>debugParam = Some ''1'',
       form = Inr \<lparr>file_field = Some (FFile ''png''), tiktokUrl = None\<rparr>\<rparr>)) = 200
   \<and> (\<exists>info. debug (fst (POST sampleClient sampleEnv \<lparr>debugParam = Some ''1'',
       form = Inr \<lparr>file_field = Some (FFile ''png''), tiktokUrl = None\<rparr>\<rparr>)) = Some info
        \<and> query info = ''Nike t-shirt black striped buy'' \<and> count info = 0)"
proof -
  let ?fd = "\<lparr>file_field = Some (FFile ''png''), tiktokUrl = None\<rparr>"
  let ?req = "\<lparr>debugParam = Some ''1'', form = Inr ?fd\<rparr>"
  have h: "debugParam ?req = Some ''1''"
    by simp
  have path: "form ?req = Inr ?fd \<and> file_field ?fd = Some (FFile ''png'')
      \<and> extractAttributes sampleClient ''png'' = Inr \<lparr>brand = Some ''Nike'', category = Some ''t-shirt'',
          colors = Some [''black'', ''white'', ''red''], patterns = Some [''striped''],
          texts = Some [''JUST DO IT'', ''blue'', ''black'']\<rparr>
      \<and> (fst (buildQuery \<lparr>brand = Some ''Nike'', category = Some ''t-shirt'',
          colors = Some [''black'', ''white'', ''red''], patterns = Some [''striped''],
          texts = Some [''JUST DO IT'', ''blue'', ''black'']\<rparr>) = [] \<or> \<not> USE_SERPAPI)"
    by (simp add: sampleClient_extracts USE_SERPAPI_def)
  from POST_debug_payload [OF h, of USE_SERPAPI sampleClient sampleEnv] path
  obtain info where "debug (fst (POST_with USE_SERPAPI sampleClient sampleEnv ?req)) = Some info"
    and "query info = fst (buildQuery \<lparr>brand = Some ''Nike'', category = Some ''t-shirt'',
          colors = Some [''black'', ''white'', ''red''], patterns = Some [''striped''],
          texts = Some [''JUST DO IT'', ''blue'', ''black'']\<rparr>)"
    and "count info = 0"
    by blast
  then have "debug (fst (POST_with USE_SERPAPI sampleClient sampleEnv ?req)) = Some info
      \<and> query info = ''Nike t-shirt black striped buy'' \<and> count info = 0"
    by (simp add: sample_query)
  moreover from this POST_debug_payload [OF h, of USE_SERPAPI sampleClient sampleEnv]
  have "status (fst (POST_with USE_SERPAPI sampleClient sampleEnv ?req)) = 200"
    by simp
  ultimately show ?thesis
    using h unfolding POST_def by blast
qed

end
